theory Spec2Isabelle
  imports Complex_Main "HOL-Library.Sublist"
begin

section \<open>Data model (src/main.ts, lines 1-37)\<close>

text \<open>
  A TypeScript \<open>number\<close> is a double: not-a-number, one of the two infinities, or a
  finite value, given here by the real number it stands for. Comparisons follow the
  language: every comparison with \<open>NaN\<close> is false. The two zeros are one value (they
  compare equal). A difference of two finite values is kept exact; the machine rounds
  it to the nearest double, or to an infinity, which changes neither its sign nor
  whether it is zero when both values are doubles, and the sort reads nothing else
  of it.
\<close>

datatype number = NaN | NegInf | Fin real | PosInf

instantiation number :: ord
begin

fun less_eq_number :: "number \<Rightarrow> number \<Rightarrow> bool" where
  "less_eq_number NaN y = False"
| "less_eq_number x NaN = False"
| "less_eq_number NegInf y = True"
| "less_eq_number x PosInf = True"
| "less_eq_number (Fin a) (Fin b) = (a \<le> b)"
| "less_eq_number x y = False"

fun less_number :: "number \<Rightarrow> number \<Rightarrow> bool" where
  "less_number NaN y = False"
| "less_number x NaN = False"
| "less_number (Fin a) (Fin b) = (a < b)"
| "less_number x NegInf = False"
| "less_number PosInf y = False"
| "less_number x y = True"

instance ..

end

instantiation number :: minus
begin

fun minus_number :: "number \<Rightarrow> number \<Rightarrow> number" where
  "minus_number NaN y = NaN"
| "minus_number x NaN = NaN"
| "minus_number PosInf PosInf = NaN"
| "minus_number NegInf NegInf = NaN"
| "minus_number PosInf y = PosInf"
| "minus_number NegInf y = NegInf"
| "minus_number x PosInf = NegInf"
| "minus_number x NegInf = PosInf"
| "minus_number (Fin a) (Fin b) = Fin (a - b)"

instance ..

end

text \<open>
  A decimal literal of the source denotes the double nearest to it. \<open>double m k\<close> is
  the double \<open>m / 2 ^ k\<close>; where it stands for a literal, the literal is written
  beside it.
\<close>

definition double :: "int \<Rightarrow> nat \<Rightarrow> number" where
  "double m k = Fin (real_of_int m / 2 ^ k)"

text \<open>
  A string is a list of characters; a character stands for the UTF-16 code unit of the
  same number, so the strings of the model are those whose code units lie below 256.
  The fields \<open>id\<close> and \<open>text\<close> carry a suffix because the plain names are taken.
\<close>

record Agent =
  id_A :: string
  name :: string
  beliefVector :: "number list"
  styleVector :: "number list"
  memory :: "string list"
  faction :: string
  credibility :: number

record DocumentRecord =
  id_D :: string
  title :: string
  text_D :: string
  authorId :: string
  timestamp :: number
  embedding :: "number list"
  references :: "string list"
  factionTag :: string
  canonWeight :: number

record LibraryViewState =
  documents :: "DocumentRecord list"
  agents :: "Agent list"
  activeDocumentId :: "string option"
  searchTerm :: string
  factionFilter :: string
  showCanonOnly :: bool

section \<open>String and array operations of the platform\<close>

text \<open>
  \<open>String.prototype.toLowerCase\<close> on code units below 256: the letters A-Z and the
  capital letters from 192 to 222, the multiplication sign 215 apart, move up by 32.
\<close>

definition lower_char :: "char \<Rightarrow> char" where
  "lower_char c =
     (let n = (of_char c :: nat)
      in if (65 \<le> n \<and> n \<le> 90) \<or> (192 \<le> n \<and> n \<le> 222 \<and> n \<noteq> 215)
         then char_of (n + 32) else c)"

definition toLowerCase :: "string \<Rightarrow> string" where
  "toLowerCase s = map lower_char s"

text \<open>
  \<open>String.prototype.trim\<close> removes white space and line terminators from both ends;
  below 256 these are tab, line feed, vertical tab, form feed, carriage return, space
  and the no-break space 160.
\<close>

definition is_space :: "char \<Rightarrow> bool" where
  "is_space c = ((of_char c :: nat) \<in> {9, 10, 11, 12, 13, 32, 160})"

definition trim :: "string \<Rightarrow> string" where
  "trim s = rev (dropWhile is_space (rev (dropWhile is_space s)))"

text \<open>\<open>Array.prototype.join\<close> on an array of strings.\<close>

fun join :: "string \<Rightarrow> string list \<Rightarrow> string" where
  "join sep [] = []"
| "join sep [x] = x"
| "join sep (x # y # ys) = x @ sep @ join sep (y # ys)"

text \<open>
  \<open>String.prototype.includes\<close>: the needle occurs at some position of the haystack.
  The search tries every start position from the left.
\<close>

fun includes_str :: "string \<Rightarrow> string \<Rightarrow> bool" where
  "includes_str [] needle = (needle = [])"
| "includes_str (c # cs) needle = (prefix needle (c # cs) \<or> includes_str cs needle)"

text \<open>
  \<open>Array.prototype.sort\<close> with a comparator. The platform reads a comparator result
  that is \<open>NaN\<close> as zero (\<open>sort_compare\<close>). The sort is stable: an element moves behind
  a later one only when the comparator is positive on the pair. This is written as an
  insertion sort that inserts each element in front of the sorted rest. With a
  comparator that is not a consistent order the language leaves the result to the
  engine; the insertion sort is one such engine.
\<close>

definition sort_compare :: "('a \<Rightarrow> 'a \<Rightarrow> number) \<Rightarrow> 'a \<Rightarrow> 'a \<Rightarrow> number" where
  "sort_compare cmp x y = (let v = cmp x y in if v = NaN then Fin 0 else v)"

fun insert_by :: "('a \<Rightarrow> 'a \<Rightarrow> number) \<Rightarrow> 'a \<Rightarrow> 'a list \<Rightarrow> 'a list" where
  "insert_by cmp x [] = [x]"
| "insert_by cmp x (y # ys) =
     (if sort_compare cmp x y \<le> Fin 0 then x # y # ys else y # insert_by cmp x ys)"

fun sort_by :: "('a \<Rightarrow> 'a \<Rightarrow> number) \<Rightarrow> 'a list \<Rightarrow> 'a list" where
  "sort_by cmp [] = []"
| "sort_by cmp (x # xs) = insert_by cmp x (sort_by cmp xs)"

section \<open>The filtering engine (src/main.ts, lines 368-386)\<close>

text \<open>
  \<open>keep st trm doc\<close> is the callback handed to \<open>filter\<close>; \<open>trm\<close> is the trimmed,
  lower-cased search term computed once before the filter runs. The literal \<open>0.7\<close> of
  line 375 is the double \<open>3152519739159347 / 2 ^ 52\<close>.
\<close>

definition agent_name :: "Agent option \<Rightarrow> string" where
  "agent_name agent = (case agent of None \<Rightarrow> [] | Some a \<Rightarrow> name a)"

definition double_0_7 :: number where
  "double_0_7 = double 3152519739159347 52"

definition keep :: "LibraryViewState \<Rightarrow> string \<Rightarrow> DocumentRecord \<Rightarrow> bool" where
  "keep st trm doc =
     (if factionFilter st \<noteq> ''all'' \<and> factionTag doc \<noteq> factionFilter st then False
      else if showCanonOnly st \<and> canonWeight doc < double_0_7 then False
      else if trm = [] then True
      else
        (let agent = find (\<lambda>a. id_A a = authorId doc) (agents st);
             haystack = toLowerCase (join '' '' [title doc, text_D doc, agent_name agent])
         in includes_str haystack trm))"

definition filteredDocuments :: "LibraryViewState \<Rightarrow> DocumentRecord list" where
  "filteredDocuments st =
     (let trm = toLowerCase (trim (searchTerm st))
      in sort_by (\<lambda>a b. timestamp b - timestamp a) (filter (keep st trm) (documents st)))"

section \<open>Fixture data (src/main.ts, lines 75-161)\<close>

definition primeAgents :: "Agent list" where
  "primeAgents =
     [\<lparr>id_A = ''a_mnemosyne'', name = ''Mnemosyne of the First Dawn'',
       beliefVector = [double 4278419646001971 52 \<comment> \<open>0.95\<close>,
                       double 3602879701896397 52 \<comment> \<open>0.8\<close>,
                       double 3602879701896397 55 \<comment> \<open>0.1\<close>],
       styleVector = [double 3602879701896397 54 \<comment> \<open>0.2\<close>,
                      double 8106479329266893 53 \<comment> \<open>0.9\<close>,
                      double 5404319552844595 53 \<comment> \<open>0.6\<close>],
       memory = [''d_origin_sky'', ''d_aurora_accord''],
       faction = ''Auroral Chorus'', credibility = Fin 92\<rparr>,
      \<lparr>id_A = ''a_cartographer'', name = ''Cartographer of Forgotten Straits'',
       beliefVector = [double 8106479329266893 54 \<comment> \<open>0.45\<close>,
                       double 5404319552844595 53 \<comment> \<open>0.6\<close>,
                       double 3602879701896397 52 \<comment> \<open>0.8\<close>],
       styleVector = [double 3152519739159347 52 \<comment> \<open>0.7\<close>,
                      double 5404319552844595 54 \<comment> \<open>0.3\<close>,
                      double 3602879701896397 54 \<comment> \<open>0.2\<close>],
       memory = [''d_tidal_vow'', ''d_silted_reckoning''],
       faction = ''Tidal Covenant'', credibility = Fin 68\<rparr>,
      \<lparr>id_A = ''a_scribe_of_breath'', name = ''Scribe of the Fifth Breath'',
       beliefVector = [double 5404319552844595 54 \<comment> \<open>0.3\<close>,
                       double 3602879701896397 53 \<comment> \<open>0.4\<close>,
                       double 4278419646001971 52 \<comment> \<open>0.95\<close>],
       styleVector = [double 5404319552844595 53 \<comment> \<open>0.6\<close>,
                      double 3602879701896397 53 \<comment> \<open>0.4\<close>,
                      double 8106479329266893 53 \<comment> \<open>0.9\<close>],
       memory = [''d_origin_sky'', ''d_ember_heresy''],
       faction = ''Ember Reliquary'', credibility = Fin 74\<rparr>]"

text \<open>
  Every fixture document takes its timestamp from its own call of \<open>Date.now()\<close>, made
  while the module is loaded: \<open>now k\<close> is the value the clock returns to call number
  \<open>k\<close> (counted from 0, in the order of the documents). A clock reading is a whole
  number of milliseconds of at most sixteen digits, so the subtraction is exact.
\<close>

definition primeDocuments :: "(nat \<Rightarrow> real) \<Rightarrow> DocumentRecord list" where
  "primeDocuments now =
     [\<lparr>id_D = ''d_origin_sky'', title = ''Hymn of the Origin Sky'',
       text_D = ''When the first readers traced the aurora, they wrote upon the sky itself.\<newline>Every word became a filament, every doubt a comet-tail of gold.\<newline>The Infinite Library inhaled and the shelves rearranged in concentric halos.'',
       authorId = ''a_mnemosyne'',
       timestamp = Fin (now 0) - Fin (1000 * 60 * 60 * 24 * 92),
       embedding = [double 8196551321814303 53 \<comment> \<open>0.91\<close>,
                    double 3512807709348987 52 \<comment> \<open>0.78\<close>,
                    double 3242591731706757 55 \<comment> \<open>0.09\<close>],
       references = [],
       factionTag = ''Auroral Chorus'',
       canonWeight = double 8286623314361713 53 \<comment> \<open>0.92\<close>\<rparr>,
      \<lparr>id_D = ''d_aurora_accord'', title = ''The Aurora Accord'',
       text_D = ''In the seventh council, factions braided their doctrines.\<newline>The accord bound mythographers to share marginalia before war.\<newline>Peace held for three cycles until the Ember Reliquary questioned the margins themselves.'',
       authorId = ''a_mnemosyne'',
       timestamp = Fin (now 1) - Fin (1000 * 60 * 60 * 24 * 61),
       embedding = [double 7566047373982433 53 \<comment> \<open>0.84\<close>,
                    double 3422735716801577 52 \<comment> \<open>0.76\<close>,
                    double 1261007895663739 53 \<comment> \<open>0.14\<close>],
       references = [''d_origin_sky''],
       factionTag = ''Auroral Chorus'',
       canonWeight = double 1823957849085051 51 \<comment> \<open>0.81\<close>\<rparr>,
      \<lparr>id_D = ''d_tidal_vow'', title = ''Tidal Vow of the Covenant'',
       text_D = ''Every tide erases and re-inscribes.\<newline>The Covenant teaches archivists to wade through silted truths, \<newline>straining myths through coral lattices until only resonance remains.\<newline>Their oath is etched on shells that sing when contradictions approach.'',
       authorId = ''a_cartographer'',
       timestamp = Fin (now 2) - Fin (1000 * 60 * 60 * 24 * 38),
       embedding = [double 1080863910568919 51 \<comment> \<open>0.48\<close>,
                    double 5494391545392005 53 \<comment> \<open>0.61\<close>,
                    double 799388933858263 50 \<comment> \<open>0.71\<close>],
       references = [''d_origin_sky''],
       factionTag = ''Tidal Covenant'',
       canonWeight = double 1553741871442821 51 \<comment> \<open>0.69\<close>\<rparr>,
      \<lparr>id_D = ''d_silted_reckoning'', title = ''Silted Reckoning'',
       text_D = ''An expedition below the ninth stacks discovered anoxic shelves.\<newline>Here the Library stores myths deemed too contradictory to burn.\<newline>The Cartographer mapped them in whispers and promised to return with allies.'',
       authorId = ''a_cartographer'',
       timestamp = Fin (now 3) - Fin (1000 * 60 * 60 * 24 * 17),
       embedding = [double 1 1 \<comment> \<open>0.5\<close>,
                    double 2476979795053773 52 \<comment> \<open>0.55\<close>,
                    double 3332663724254167 52 \<comment> \<open>0.74\<close>],
       references = [''d_tidal_vow''],
       factionTag = ''Tidal Covenant'',
       canonWeight = double 5134103575202365 53 \<comment> \<open>0.57\<close>\<rparr>,
      \<lparr>id_D = ''d_ember_heresy'', title = ''Treatise on Ember Heresy'',
       text_D = ''To deny the flames is to deny revision.\<newline>The Reliquary tends to contradictions by setting them alight,\<newline>reading the smoke to decide which memory survives the purge.\<newline>Some say the smoke has begun to spell dissent.'',
       authorId = ''a_scribe_of_breath'',
       timestamp = Fin (now 4) - Fin (1000 * 60 * 60 * 24 * 11),
       embedding = [double 5584463537939415 54 \<comment> \<open>0.31\<close>,
                    double 8286623314361713 54 \<comment> \<open>0.46\<close>,
                    double 8286623314361713 53 \<comment> \<open>0.92\<close>],
       references = [''d_origin_sky'', ''d_aurora_accord''],
       factionTag = ''Ember Reliquary'',
       canonWeight = double 5494391545392005 53 \<comment> \<open>0.61\<close>\<rparr>]"

section \<open>The caller of the filtering engine (src/main.ts, lines 388-453)\<close>

text \<open>
  The page elements are kept to what the state transitions read and write: the archive
  list is absent or holds its items, an item being the empty-state notice or the card of
  a document (its id, and whether it carries the class \<open>active\<close>); the detail pane is
  absent or shows nothing yet, the empty-state notice, or a document. The texts on a
  card and in the pane are presentation and are left out.
\<close>

datatype li = EmptyState | ArchiveCard string bool

datatype detail = Blank | EmptyDetail | DocumentDetail string

record InfiniteLibraryApp =
  state :: LibraryViewState
  archiveListEl :: "li list option"
  detailContainerEl :: "detail option"

definition refreshDocumentView :: "InfiniteLibraryApp \<Rightarrow> InfiniteLibraryApp" where
  "refreshDocumentView app =
     (case detailContainerEl app of
        None \<Rightarrow> app
      | Some _ \<Rightarrow>
          (case find (\<lambda>doc. Some (id_D doc) = activeDocumentId (state app))
                  (documents (state app)) of
             None \<Rightarrow> app\<lparr>detailContainerEl := Some EmptyDetail\<rparr>
           | Some active \<Rightarrow> app\<lparr>detailContainerEl := Some (DocumentDetail (id_D active))\<rparr>))"

definition first_id :: "DocumentRecord list \<Rightarrow> string option" where
  "first_id ds = (case ds of [] \<Rightarrow> None | d # _ \<Rightarrow> Some (id_D d))"

definition refreshArchiveList :: "InfiniteLibraryApp \<Rightarrow> InfiniteLibraryApp" where
  "refreshArchiveList app =
     (case archiveListEl app of
        None \<Rightarrow> app
      | Some _ \<Rightarrow>
          (let ds = filteredDocuments (state app) in
           if length ds = 0
           then refreshDocumentView (app\<lparr>archiveListEl := Some [EmptyState]\<rparr>)
           else
             (let cards = map (\<lambda>doc. ArchiveCard (id_D doc)
                                 (Some (id_D doc) = activeDocumentId (state app))) ds;
                  app1 = app\<lparr>archiveListEl := Some cards\<rparr>
              in if \<not> list_ex (\<lambda>doc. Some (id_D doc) = activeDocumentId (state app1)) ds
                 then refreshDocumentView
                        (app1\<lparr>state := (state app1)\<lparr>activeDocumentId := first_id ds\<rparr>\<rparr>)
                 else app1)))"

text \<open>The view state the constructor builds (src/main.ts, lines 194-201).\<close>

definition initialState :: "(nat \<Rightarrow> real) \<Rightarrow> LibraryViewState" where
  "initialState now =
     \<lparr>documents = primeDocuments now, agents = primeAgents,
      activeDocumentId = first_id (primeDocuments now),
      searchTerm = [], factionFilter = ''all'', showCanonOnly = False\<rparr>"

text \<open>A clock that returns the same instant to every call.\<close>

definition steady_clock :: "real \<Rightarrow> nat \<Rightarrow> real" where
  "steady_clock t k = t"

section \<open>The filter conditions in the words of the specification\<close>

text \<open>
  The three notions the search condition rests on, written down a second time without
  the platform operations, to be compared with what the code computes: the white space
  that trimming removes, the lower-case form of a character, and the name of the agent
  an author id resolves to (the first agent with that id, the empty string when there
  is none).
\<close>

definition spec_white_space :: "char list" where
  "spec_white_space =
     [CHR 0x09, CHR 0x0A, CHR 0x0B, CHR 0x0C, CHR 0x0D, CHR 0x20, CHR 0xA0]"

fun spec_strip :: "string \<Rightarrow> string" where
  "spec_strip [] = []"
| "spec_strip (c # cs) = (if c \<in> set spec_white_space then spec_strip cs else c # cs)"

definition spec_trimmed :: "string \<Rightarrow> string" where
  "spec_trimmed s = rev (spec_strip (rev (spec_strip s)))"

definition spec_capitals :: "(char \<times> char) list" where
  "spec_capitals =
     zip (''ABCDEFGHIJKLMNOPQRSTUVWXYZ'' @
          [CHR 0xC0, CHR 0xC1, CHR 0xC2, CHR 0xC3, CHR 0xC4, CHR 0xC5, CHR 0xC6, CHR 0xC7,
           CHR 0xC8, CHR 0xC9, CHR 0xCA, CHR 0xCB, CHR 0xCC, CHR 0xCD, CHR 0xCE, CHR 0xCF,
           CHR 0xD0, CHR 0xD1, CHR 0xD2, CHR 0xD3, CHR 0xD4, CHR 0xD5, CHR 0xD6,
           CHR 0xD8, CHR 0xD9, CHR 0xDA, CHR 0xDB, CHR 0xDC, CHR 0xDD, CHR 0xDE])
         (''abcdefghijklmnopqrstuvwxyz'' @
          [CHR 0xE0, CHR 0xE1, CHR 0xE2, CHR 0xE3, CHR 0xE4, CHR 0xE5, CHR 0xE6, CHR 0xE7,
           CHR 0xE8, CHR 0xE9, CHR 0xEA, CHR 0xEB, CHR 0xEC, CHR 0xED, CHR 0xEE, CHR 0xEF,
           CHR 0xF0, CHR 0xF1, CHR 0xF2, CHR 0xF3, CHR 0xF4, CHR 0xF5, CHR 0xF6,
           CHR 0xF8, CHR 0xF9, CHR 0xFA, CHR 0xFB, CHR 0xFC, CHR 0xFD, CHR 0xFE])"

definition spec_lower :: "string \<Rightarrow> string" where
  "spec_lower s =
     map (\<lambda>c. case map_of spec_capitals c of None \<Rightarrow> c | Some l \<Rightarrow> l) s"

fun spec_author_name :: "Agent list \<Rightarrow> string \<Rightarrow> string" where
  "spec_author_name [] author = []"
| "spec_author_name (a # ags) author =
     (if id_A a = author then name a else spec_author_name ags author)"

text \<open>Sample inputs for the filtering engine.\<close>

definition sample_document :: "string \<Rightarrow> number \<Rightarrow> number \<Rightarrow> DocumentRecord" where
  "sample_document i t w =
     \<lparr>id_D = i, title = ''Untitled'', text_D = [], authorId = ''a_mnemosyne'',
      timestamp = t, embedding = [], references = [],
      factionTag = ''Auroral Chorus'', canonWeight = w\<rparr>"

text \<open>
  A view of the fixtures in which every filter is active: the faction filter selects the
  Auroral Chorus, canon focus is on, and the search term, wrapped in a line feed, spaces
  and a no-break space, occurs in the author's name only.
\<close>

definition sample_view :: LibraryViewState where
  "sample_view =
     (initialState (steady_clock 1762041600000))
       \<lparr>searchTerm := [CHR 0x0A] @ '' First DAWN '' @ [CHR 0xA0],
        factionFilter := ''Auroral Chorus'', showCanonOnly := True\<rparr>"

text \<open>A view under canon focus whose one document has the canon weight \<open>NaN\<close>.\<close>

definition nan_weight_view :: LibraryViewState where
  "nan_weight_view =
     \<lparr>documents = [sample_document ''d_unweighed'' (Fin 0) NaN], agents = primeAgents,
      activeDocumentId = None, searchTerm = [], factionFilter = ''all'',
      showCanonOnly = True\<rparr>"

text \<open>A view of three documents stamped 1, \<open>NaN\<close> and 2, in this order.\<close>

definition nan_stamp_view :: LibraryViewState where
  "nan_stamp_view =
     \<lparr>documents = [sample_document ''d_one'' (Fin 1) (Fin 1),
                   sample_document ''d_unstamped'' NaN (Fin 1),
                   sample_document ''d_two'' (Fin 2) (Fin 1)],
      agents = primeAgents, activeDocumentId = None, searchTerm = [],
      factionFilter = ''all'', showCanonOnly = False\<rparr>"

section \<open>The persisted settings store (src/main.ts, lines 39-73)\<close>

text \<open>
  The values a settings object can hold, as far as the store tells them apart: what
  \<open>JSON.parse\<close> can return, and next to it \<open>undefined\<close>, the numbers that are not
  finite (they are values of \<open>number\<close>) and big integers. An object is a map from
  property names to values; the settings objects the store holds are such maps.
  Functions, symbols and objects with methods of their own are left out.
\<close>

datatype jsvalue =
    JUndefined
  | JNull
  | JBoolean bool
  | JNumber number
  | JBigInt int
  | JString string
  | JArray "jsvalue list"
  | JObject "string \<Rightarrow> jsvalue option"

type_synonym props = "string \<Rightarrow> jsvalue option"

text \<open>
  The own enumerable properties an object spread \<open>{...v}\<close> copies: those of an object,
  the index properties of an array or of a string, none for the other values.
\<close>

fun index_key :: "nat \<Rightarrow> string" where
  "index_key n =
     (if n < 10 then [char_of (48 + n)]
      else index_key (n div 10) @ [char_of (48 + n mod 10)])"

definition own_props :: "jsvalue \<Rightarrow> props" where
  "own_props v =
     (case v of
        JObject m \<Rightarrow> m
      | JArray xs \<Rightarrow> map_of (zip (map index_key [0..<length xs]) xs)
      | JString s \<Rightarrow> map_of (zip (map index_key [0..<length s]) (map (\<lambda>c. JString [c]) s))
      | _ \<Rightarrow> Map.empty)"

text \<open>
  The browser's storage area. Whether an access is refused (\<open>denied\<close>) and whether
  the area takes a new entry (\<open>accepts\<close>, the quota) is decided by the browser, so both
  are part of the storage. A refused or rejected \<open>setItem\<close> stores nothing. \<open>TypeError\<close>
  is what \<open>JSON.stringify\<close> raises; \<open>Thrown\<close> is an exception raised by a subscriber.
\<close>

datatype error = SecurityError | QuotaExceededError | SyntaxError | TypeError | Thrown string

record Storage =
  items :: "string \<Rightarrow> string option"
  denied :: bool
  accepts :: "string \<Rightarrow> string \<Rightarrow> bool"

definition getItem :: "Storage \<Rightarrow> string \<Rightarrow> error + string option" where
  "getItem ls k = (if denied ls then Inl SecurityError else Inr (items ls k))"

definition setItem :: "Storage \<Rightarrow> string \<Rightarrow> string \<Rightarrow> error + Storage" where
  "setItem ls k v =
     (if denied ls then Inl SecurityError
      else if \<not> accepts ls k v then Inl QuotaExceededError
      else Inr (ls\<lparr>items := (items ls)(k \<mapsto> v)\<rparr>))"

text \<open>What a call can change outside the store object: the storage area and the console.\<close>

record world =
  localStorage :: Storage
  console :: "(string \<times> error) list"

text \<open>
  The store object. A subscriber is known by its identity \<open>'f\<close>; the key and the
  default are never assigned after the constructor.
\<close>

record 'f LocalStorageStore =
  key :: string
  defaultValue :: props
  subscribers :: "'f list"

text \<open>
  \<open>read\<close>: \<open>read_try\<close> is the body of the \<open>try\<close> block, \<open>read\<close> adds the
  \<open>catch\<close> block. \<open>JSON.parse\<close> is the platform's and is taken as a parameter.
\<close>

definition read_try ::
  "(string \<Rightarrow> error + jsvalue) \<Rightarrow> 'f LocalStorageStore \<Rightarrow> world \<Rightarrow> error + props" where
  "read_try JSON_parse this w =
     (case getItem (localStorage w) (key this) of
        Inl e \<Rightarrow> Inl e
      | Inr raw \<Rightarrow>
          (if raw = None \<or> raw = Some [] then Inr (defaultValue this)
           else
             (case JSON_parse (the raw) of
                Inl e \<Rightarrow> Inl e
              | Inr parsed \<Rightarrow> Inr (defaultValue this ++ own_props parsed))))"

definition read ::
  "(string \<Rightarrow> error + jsvalue) \<Rightarrow> 'f LocalStorageStore \<Rightarrow> world
     \<Rightarrow> (error + props) \<times> world" where
  "read JSON_parse this w =
     (case read_try JSON_parse this w of
        Inr v \<Rightarrow> (Inr v, w)
      | Inl e \<Rightarrow>
          (Inr (defaultValue this),
           w\<lparr>console := console w @ [(''Failed to load '' @ key this @ '' from storage'', e)]\<rparr>))"

text \<open>
  A subscriber is code of the caller. Invoked with the new value it returns or raises,
  and on the way it may do what a caller can do: change the subscriber list of the
  store (through \<open>subscribe\<close> and the handles), the storage area and the console, also
  by calling back into the store. What each subscriber does is the parameter \<open>run\<close>. A
  subscriber that never returns is left out.
\<close>

type_synonym 'f reach = "'f list \<times> world"

type_synonym 'f behaviour = "'f \<Rightarrow> props \<Rightarrow> 'f reach \<Rightarrow> (error + unit) \<times> 'f reach"

text \<open>
  What a call of \<open>write\<close> comes to: it returns or raises (\<open>result\<close>), the subscriber
  invocations it made itself, in order (\<open>calls\<close>), and the subscriber list and the
  world it leaves.
\<close>

record 'f outcome =
  result :: "error + unit"
  calls :: "('f \<times> props) list"
  subscribers_after :: "'f list"
  world_after :: world

text \<open>
  \<open>Array.prototype.forEach\<close> with the callback of line 64. It walks the array it was
  called on: a subscriber added meanwhile lies beyond the length read at the start,
  and a handle replaces the list of the store by a new array, so the walk is over the
  subscribers registered when it began. An exception ends the walk.
\<close>

fun forEach :: "'f behaviour \<Rightarrow> props \<Rightarrow> 'f list \<Rightarrow> 'f reach \<Rightarrow> 'f outcome" where
  "forEach run v [] c =
     \<lparr>result = Inr (), calls = [], subscribers_after = fst c, world_after = snd c\<rparr>"
| "forEach run v (subscriber # rest) c =
     (case run subscriber v c of
        (Inl e, c') \<Rightarrow>
          \<lparr>result = Inl e, calls = [(subscriber, v)],
           subscribers_after = fst c', world_after = snd c'\<rparr>
      | (Inr u, c') \<Rightarrow>
          (let r = forEach run v rest c' in r\<lparr>calls := (subscriber, v) # calls r\<rparr>))"

text \<open>
  \<open>write\<close> (named \<open>write_value\<close> here): \<open>JSON.stringify\<close> is the platform's and is
  taken as a parameter; it returns the text or raises. Line 63 reaches for the storage
  area first, then builds the text, then calls \<open>setItem\<close>; an exception at any of
  these leaves the method at once.
\<close>

definition write_value ::
  "'f behaviour \<Rightarrow> (jsvalue \<Rightarrow> error + string) \<Rightarrow> 'f LocalStorageStore \<Rightarrow> props \<Rightarrow> world
     \<Rightarrow> 'f outcome" where
  "write_value run JSON_stringify this v w =
     (if denied (localStorage w)
      then \<lparr>result = Inl SecurityError, calls = [],
            subscribers_after = subscribers this, world_after = w\<rparr>
      else
        (case JSON_stringify (JObject v) of
           Inl e \<Rightarrow>
             \<lparr>result = Inl e, calls = [], subscribers_after = subscribers this, world_after = w\<rparr>
         | Inr t \<Rightarrow>
             (case setItem (localStorage w) (key this) t of
                Inl e \<Rightarrow>
                  \<lparr>result = Inl e, calls = [],
                   subscribers_after = subscribers this, world_after = w\<rparr>
              | Inr ls \<Rightarrow>
                  forEach run v (subscribers this)
                    (subscribers this, w\<lparr>localStorage := ls\<rparr>))))"

text \<open>
  \<open>subscribe\<close> returns the store with the subscriber appended, and the handle, which
  acts on whatever the store is when the handle is invoked.
\<close>

definition unsubscribe :: "'f \<Rightarrow> 'f LocalStorageStore \<Rightarrow> 'f LocalStorageStore" where
  "unsubscribe subscriber this =
     this\<lparr>subscribers := filter (\<lambda>fn. fn \<noteq> subscriber) (subscribers this)\<rparr>"

definition subscribe ::
  "'f \<Rightarrow> 'f LocalStorageStore
     \<Rightarrow> 'f LocalStorageStore \<times> ('f LocalStorageStore \<Rightarrow> 'f LocalStorageStore)" where
  "subscribe subscriber this =
     (this\<lparr>subscribers := subscribers this @ [subscriber]\<rparr>, unsubscribe subscriber)"

text \<open>
  Sample data for the store: the settings the form produces, the default the application
  passes to the constructor (lines 203-206), settings with a member that is \<open>NaN\<close> and
  the settings \<open>JSON.parse\<close> makes of their text, stored texts, and \<open>JSON.parse\<close> and
  \<open>JSON.stringify\<close> as far as these samples go (any other text counts as malformed
  here, any other value prints as \<open>null\<close>).
\<close>

definition sample_settings :: props where
  "sample_settings = [''modelSlug'' \<mapsto> JString ''m'', ''apiKey'' \<mapsto> JString ''k'']"

definition sample_default :: props where
  "sample_default = [''modelSlug'' \<mapsto> JString ''openrouter/auto'', ''apiKey'' \<mapsto> JString '''']"

definition nan_settings :: props where
  "nan_settings =
     [''modelSlug'' \<mapsto> JString ''m'', ''apiKey'' \<mapsto> JString ''k'',
      ''temperature'' \<mapsto> JNumber NaN]"

definition null_settings :: props where
  "null_settings =
     [''modelSlug'' \<mapsto> JString ''m'', ''apiKey'' \<mapsto> JString ''k'', ''temperature'' \<mapsto> JNull]"

definition settings_text :: string where
  \<open>settings_text = ''{"modelSlug":"m","apiKey":"k"}''\<close>

definition null_text :: string where
  \<open>null_text = ''{"modelSlug":"m","apiKey":"k","temperature":null}''\<close>

definition theme_text :: string where
  \<open>theme_text = ''{"theme":"dark"}''\<close>

definition corrupt_text :: string where
  "corrupt_text = ''{modelSlug:''"

definition sample_parse :: "string \<Rightarrow> error + jsvalue" where
  "sample_parse raw =
     (if raw = settings_text then Inr (JObject sample_settings)
      else if raw = null_text then Inr (JObject null_settings)
      else if raw = theme_text then Inr (JObject [''theme'' \<mapsto> JString ''dark''])
      else Inl SyntaxError)"

definition sample_stringify :: "jsvalue \<Rightarrow> error + string" where
  "sample_stringify v =
     (if v = JObject nan_settings \<or> v = JObject null_settings then Inr null_text
      else if v = JObject sample_settings then Inr settings_text
      else Inr ''null'')"

definition sample_store :: "nat LocalStorageStore" where
  "sample_store =
     \<lparr>key = ''infinite-library.settings'', defaultValue = sample_default,
      subscribers = [1, 2]\<rparr>"

definition sample_world :: "(string \<Rightarrow> string option) \<Rightarrow> bool \<Rightarrow> bool \<Rightarrow> world" where
  "sample_world entries den acc =
     \<lparr>localStorage = \<lparr>items = entries, denied = den, accepts = (\<lambda>k v. acc)\<rparr>, console = []\<rparr>"

text \<open>
  Sample subscribers: under \<open>quiet_run\<close> every subscriber returns and changes nothing;
  under \<open>raising_run\<close> subscriber 1 raises; under \<open>meddling_run\<close> subscriber 1 invokes
  the handle of subscriber 2.
\<close>

definition quiet_run :: "nat behaviour" where
  "quiet_run f v c = (Inr (), c)"

definition raising_run :: "nat behaviour" where
  "raising_run f v c = (if f = 1 then (Inl (Thrown ''subscriber 1''), c) else (Inr (), c))"


section \<open>The filtering engine on the object store\<close>

text \<open>
  Arrays and objects are shared by reference, and \<open>sort\<close> reorders its array in
  place. To see what a call may change, the objects live in a store: an address is a
  position in the list of allocated objects, and a new object goes to the end. An array
  holds the addresses of its elements; the view state holds the addresses of its two
  arrays next to its plain fields.
\<close>

type_synonym ref = nat

datatype obj =
    DocumentObj DocumentRecord
  | AgentObj Agent
  | ArrayObj "ref list"
  | ViewStateObj ref ref "string option" string string bool

type_synonym heap = "obj list"

definition deref :: "heap \<Rightarrow> ref \<Rightarrow> obj option" where
  "deref h r = (if r < length h then Some (h ! r) else None)"

definition get_document :: "heap \<Rightarrow> ref \<Rightarrow> DocumentRecord option" where
  "get_document h r = (case deref h r of Some (DocumentObj d) \<Rightarrow> Some d | _ \<Rightarrow> None)"

definition get_agent :: "heap \<Rightarrow> ref \<Rightarrow> Agent option" where
  "get_agent h r = (case deref h r of Some (AgentObj a) \<Rightarrow> Some a | _ \<Rightarrow> None)"

definition get_array :: "heap \<Rightarrow> ref \<Rightarrow> ref list option" where
  "get_array h r = (case deref h r of Some (ArrayObj rs) \<Rightarrow> Some rs | _ \<Rightarrow> None)"

definition load_documents :: "heap \<Rightarrow> ref \<Rightarrow> DocumentRecord list option" where
  "load_documents h r =
     (case get_array h r of None \<Rightarrow> None | Some rs \<Rightarrow> those (map (get_document h) rs))"

definition load_agents :: "heap \<Rightarrow> ref \<Rightarrow> Agent list option" where
  "load_agents h r =
     (case get_array h r of None \<Rightarrow> None | Some rs \<Rightarrow> those (map (get_agent h) rs))"

text \<open>
  \<open>load_state\<close> reads the view state at an address together with everything it
  refers to. It is defined exactly when the store is well formed below that address:
  the address holds a view state, its two arrays exist, and their elements are
  documents and agents.
\<close>

definition load_state :: "heap \<Rightarrow> ref \<Rightarrow> LibraryViewState option" where
  "load_state h this =
     (case deref h this of
        Some (ViewStateObj dr ar act s ff sc) \<Rightarrow>
          (case (load_documents h dr, load_agents h ar) of
             (Some ds, Some ags) \<Rightarrow>
               Some \<lparr>documents = ds, agents = ags, activeDocumentId = act,
                     searchTerm = s, factionFilter = ff, showCanonOnly = sc\<rparr>
           | _ \<Rightarrow> None)
      | _ \<Rightarrow> None)"

definition documents_ref :: "heap \<Rightarrow> ref \<Rightarrow> ref option" where
  "documents_ref h this =
     (case deref h this of Some (ViewStateObj dr ar act s ff sc) \<Rightarrow> Some dr | _ \<Rightarrow> None)"

text \<open>
  The getter on the store. \<open>filter\<close> allocates the array of the elements it keeps;
  \<open>sort\<close> writes the sorted elements back into that same array and returns it. The
  result is the address of the array and the store after the call.
\<close>

definition filteredDocuments_heap :: "heap \<Rightarrow> ref \<Rightarrow> (ref \<times> heap) option" where
  "filteredDocuments_heap h this =
     (case (load_state h this, documents_ref h this) of
        (Some st, Some dr) \<Rightarrow>
          (case get_array h dr of
             None \<Rightarrow> None
           | Some rs \<Rightarrow>
               (let trm = toLowerCase (trim (searchTerm st));
                    kept = filter (\<lambda>(r, doc). keep st trm doc) (zip rs (documents st));
                    result = length h;
                    h1 = h @ [ArrayObj (map fst kept)];
                    sorted = sort_by (\<lambda>(ra, a) (rb, b). timestamp b - timestamp a) kept;
                    h2 = h1[result := ArrayObj (map fst sorted)]
                in Some (result, h2)))
      | _ \<Rightarrow> None)"

text \<open>
  A store holding the fixtures: the five documents at addresses 0 to 4, the three agents
  at 5 to 7, the two arrays at 8 and 9, and the view state at 10.
\<close>

definition sample_heap :: heap where
  "sample_heap =
     map DocumentObj (primeDocuments (steady_clock 1762041600000)) @
     map AgentObj primeAgents @
     [ArrayObj [0, 1, 2, 3, 4], ArrayObj [5, 6, 7],
      ViewStateObj 8 9 (Some ''d_origin_sky'') [] ''all'' False]"

section \<open>Properties of the platform operations\<close>

lemma includes_str_iff_sublist: "includes_str hay needle \<longleftrightarrow> sublist needle hay"
  by (induction hay) (simp_all add: sublist_Cons_right)

lemma set_insert_by: "set (insert_by cmp x xs) = insert x (set xs)"
  by (induction xs) auto

lemma set_sort_by: "set (sort_by cmp xs) = set xs"
  by (induction xs) (simp_all add: set_insert_by)

text \<open>The order of numbers: apart from \<open>NaN\<close> it is a total preorder.\<close>

lemma number_le_refl: "a \<noteq> NaN \<Longrightarrow> a \<le> (a :: number)"
  by (cases a) simp_all

lemma number_le_trans: "a \<le> b \<Longrightarrow> b \<le> c \<Longrightarrow> a \<le> (c :: number)"
  by (cases a; cases b; cases c) simp_all

lemma number_le_total: "a \<noteq> NaN \<Longrightarrow> b \<noteq> NaN \<Longrightarrow> a \<le> b \<or> b \<le> (a :: number)"
  by (cases a; cases b) auto

lemma not_less_iff_ge_or_NaN: "\<not> w < Fin c \<longleftrightarrow> w \<ge> Fin c \<or> w = NaN"
  by (cases w) auto

text \<open>On numbers other than \<open>NaN\<close> the comparator of the engine is the order, reversed.\<close>

lemma sort_compare_descending:
  assumes "a \<noteq> NaN" and "b \<noteq> NaN"
  shows "sort_compare (\<lambda>x y. y - x) a b \<le> Fin 0 \<longleftrightarrow> b \<le> (a :: number)"
  using assms by (cases a; cases b) (simp_all add: sort_compare_def)

lemma sort_compare_timestamp:
  assumes "timestamp a \<noteq> NaN" and "timestamp b \<noteq> NaN"
  shows "sort_compare (\<lambda>x y. timestamp y - timestamp x) a b \<le> Fin 0
           \<longleftrightarrow> timestamp b \<le> timestamp a"
  using sort_compare_descending [OF assms] by (simp add: sort_compare_def)

lemma sorted_insert_by_timestamp:
  assumes "\<forall>d \<in> set (x # ys). timestamp d \<noteq> NaN"
    and "sorted_wrt (\<lambda>a b. timestamp b \<le> timestamp a) ys"
  shows "sorted_wrt (\<lambda>a b. timestamp b \<le> timestamp a)
           (insert_by (\<lambda>a b. timestamp b - timestamp a) x ys)"
  using assms
proof (induction ys)
  case Nil
  then show ?case by simp
next
  case (Cons y ys)
  show ?case
  proof (cases "timestamp y \<le> timestamp x")
    case True
    then have "\<forall>z \<in> set ys. timestamp z \<le> timestamp x"
      using Cons.prems(2) by (auto intro: number_le_trans)
    with True Cons.prems show ?thesis
      by (simp add: sort_compare_timestamp)
  next
    case False
    then have "timestamp x \<le> timestamp y"
      using Cons.prems(1) number_le_total [of "timestamp x" "timestamp y"] by auto
    moreover have "sorted_wrt (\<lambda>a b. timestamp b \<le> timestamp a)
                     (insert_by (\<lambda>a b. timestamp b - timestamp a) x ys)"
      using Cons.IH Cons.prems by simp
    ultimately show ?thesis
      using False Cons.prems by (auto simp add: sort_compare_timestamp set_insert_by)
  qed
qed

lemma sorted_sort_by_timestamp:
  assumes "\<forall>d \<in> set xs. timestamp d \<noteq> NaN"
  shows "sorted_wrt (\<lambda>a b. timestamp b \<le> timestamp a)
           (sort_by (\<lambda>a b. timestamp b - timestamp a) xs)"
  using assms
  by (induction xs) (simp_all add: sorted_insert_by_timestamp set_sort_by)

lemma stable_insert_by_timestamp:
  assumes "\<forall>d \<in> set (x # ys). timestamp d \<noteq> NaN"
  shows "filter (\<lambda>d. timestamp d = t) (insert_by (\<lambda>a b. timestamp b - timestamp a) x ys)
           = filter (\<lambda>d. timestamp d = t) (x # ys)"
  using assms
proof (induction ys)
  case Nil
  then show ?case by simp
next
  case (Cons y ys)
  show ?case
  proof (cases "timestamp y \<le> timestamp x")
    case True
    with Cons.prems show ?thesis
      by (simp add: sort_compare_timestamp)
  next
    case False
    then have differ: "timestamp x \<noteq> timestamp y"
      using Cons.prems number_le_refl [of "timestamp y"] by auto
    have "filter (\<lambda>d. timestamp d = t) (insert_by (\<lambda>a b. timestamp b - timestamp a) x ys)
            = filter (\<lambda>d. timestamp d = t) (x # ys)"
      using Cons.IH Cons.prems by simp
    with False differ Cons.prems show ?thesis
      by (auto simp add: sort_compare_timestamp)
  qed
qed

lemma stable_sort_by_timestamp:
  assumes "\<forall>d \<in> set xs. timestamp d \<noteq> NaN"
  shows "filter (\<lambda>d. timestamp d = t) (sort_by (\<lambda>a b. timestamp b - timestamp a) xs)
           = filter (\<lambda>d. timestamp d = t) xs"
  using assms
  by (induction xs) (simp_all add: stable_insert_by_timestamp set_sort_by)

text \<open>The platform operations agree with the notions of the specification.\<close>

lemma is_space_spec: "is_space c \<longleftrightarrow> c \<in> set spec_white_space"
proof -
  have "\<forall>c::char. is_space c \<longleftrightarrow> c \<in> set spec_white_space"
    by code_simp
  then show ?thesis by blast
qed

lemma lower_char_spec:
  "lower_char c = (case map_of spec_capitals c of None \<Rightarrow> c | Some l \<Rightarrow> l)"
proof -
  have "\<forall>c::char. lower_char c = (case map_of spec_capitals c of None \<Rightarrow> c | Some l \<Rightarrow> l)"
    by code_simp
  then show ?thesis by blast
qed

lemma spec_strip_dropWhile: "spec_strip s = dropWhile is_space s"
  by (induction s) (simp_all add: is_space_spec)

lemma trim_spec: "trim s = spec_trimmed s"
  by (simp add: trim_def spec_trimmed_def spec_strip_dropWhile)

lemma toLowerCase_spec: "toLowerCase s = spec_lower s"
  by (simp add: toLowerCase_def spec_lower_def lower_char_spec)

lemma agent_name_spec:
  "agent_name (find (\<lambda>a. id_A a = author) ags) = spec_author_name ags author"
  by (induction ags) (simp_all add: agent_name_def)

section \<open>Properties of the filtering engine\<close>

text \<open>
  Claim C1, as the code has it. A document appears in the output of
  \<open>filteredDocuments\<close> if and only if it is one of the documents of the view state and
  satisfies all three conditions: when the faction filter is not \<open>all\<close> its faction
  tag equals the filter; when \<open>showCanonOnly\<close> is set its canon weight is not below
  0.7, that is, it is at least 0.7 or it is \<open>NaN\<close>; and when the trimmed, lower-cased
  search term is not empty, the term is a contiguous part of the lower-cased haystack
  made of the title, the text and the resolved author's name (empty when no agent has
  the author's id), joined by single spaces. Trimming, lower case and the resolved name
  are the notions of the specification.
\<close>

theorem filteredDocuments_membership:
  "doc \<in> set (filteredDocuments st) \<longleftrightarrow>
     doc \<in> set (documents st) \<and>
     (factionFilter st \<noteq> ''all'' \<longrightarrow> factionTag doc = factionFilter st) \<and>
     (showCanonOnly st \<longrightarrow> canonWeight doc \<ge> double_0_7 \<or> canonWeight doc = NaN) \<and>
     (spec_lower (spec_trimmed (searchTerm st)) \<noteq> [] \<longrightarrow>
        (\<exists>before after.
           spec_lower (title doc @ '' '' @ text_D doc @ '' '' @
                       spec_author_name (agents st) (authorId doc))
             = before @ spec_lower (spec_trimmed (searchTerm st)) @ after))"
proof -
  have weight: "\<not> canonWeight doc < double_0_7
                  \<longleftrightarrow> canonWeight doc \<ge> double_0_7 \<or> canonWeight doc = NaN"
    unfolding double_0_7_def double_def by (rule not_less_iff_ge_or_NaN)
  have "doc \<in> set (filteredDocuments st) \<longleftrightarrow>
          doc \<in> set (documents st) \<and> keep st (toLowerCase (trim (searchTerm st))) doc"
    by (simp add: filteredDocuments_def Let_def set_sort_by)
  also have "keep st (toLowerCase (trim (searchTerm st))) doc \<longleftrightarrow>
     (factionFilter st \<noteq> ''all'' \<longrightarrow> factionTag doc = factionFilter st) \<and>
     (showCanonOnly st \<longrightarrow> \<not> canonWeight doc < double_0_7) \<and>
     (spec_lower (spec_trimmed (searchTerm st)) \<noteq> [] \<longrightarrow>
        sublist (spec_lower (spec_trimmed (searchTerm st)))
          (spec_lower (title doc @ '' '' @ text_D doc @ '' '' @
                       spec_author_name (agents st) (authorId doc))))"
    by (auto simp add: keep_def Let_def includes_str_iff_sublist trim_spec
          toLowerCase_spec agent_name_spec)
  finally show ?thesis
    by (simp add: weight sublist_def)
qed

theorem filteredDocuments_membership_witness:
  "factionFilter sample_view \<noteq> ''all'' \<and> showCanonOnly sample_view \<and>
   spec_lower (spec_trimmed (searchTerm sample_view)) = ''first dawn'' \<and>
   toLowerCase (trim (searchTerm sample_view)) = ''first dawn'' \<and>
   map id_D (filteredDocuments sample_view) = [''d_aurora_accord'', ''d_origin_sky''] \<and>
   (\<exists>before after.
      spec_lower (''Hymn of the Origin Sky'' @ '' '' @
        text_D (primeDocuments (steady_clock 1762041600000) ! 0) @ '' '' @
        ''Mnemosyne of the First Dawn'') = before @ ''first dawn'' @ after) \<and>
   primeDocuments (steady_clock 1762041600000) ! 2 \<notin> set (filteredDocuments sample_view)"
proof -
  let ?docs = "primeDocuments (steady_clock 1762041600000)"
  have flags: "factionFilter sample_view \<noteq> ''all'' \<and> showCanonOnly sample_view"
    by (simp add: sample_view_def)
  have trm: "toLowerCase (trim (searchTerm sample_view)) = ''first dawn''"
    by (simp add: sample_view_def trim_def toLowerCase_def is_space_def lower_char_def
          char_of_def bit_Suc_0_iff)
  then have spec_trm: "spec_lower (spec_trimmed (searchTerm sample_view)) = ''first dawn''"
    by (simp add: trim_spec toLowerCase_spec)
  have out: "filteredDocuments sample_view = [?docs ! 1, ?docs ! 0]"
    by (simp add: sample_view_def initialState_def steady_clock_def filteredDocuments_def
          primeDocuments_def keep_def trim_def toLowerCase_def is_space_def lower_char_def
          primeAgents_def agent_name_def char_of_def bit_Suc_0_iff double_def
          double_0_7_def sort_compare_def)
  then have ids: "map id_D (filteredDocuments sample_view)
                    = [''d_aurora_accord'', ''d_origin_sky'']"
    by (simp add: primeDocuments_def)
  have mem: "?docs ! 0 \<in> set (filteredDocuments sample_view)"
    by (simp add: out)
  have author: "spec_author_name (agents sample_view) (authorId (?docs ! 0))
                  = ''Mnemosyne of the First Dawn''"
    by (simp add: sample_view_def initialState_def primeDocuments_def primeAgents_def)
  have ttl: "title (?docs ! 0) = ''Hymn of the Origin Sky''"
    by (simp add: primeDocuments_def)
  from filteredDocuments_membership [of "?docs ! 0" sample_view] mem
  have "\<exists>before after.
           spec_lower (title (?docs ! 0) @ '' '' @ text_D (?docs ! 0) @ '' '' @
                       spec_author_name (agents sample_view) (authorId (?docs ! 0)))
             = before @ spec_lower (spec_trimmed (searchTerm sample_view)) @ after"
    using spec_trm by simp
  then have hay: "\<exists>before after.
      spec_lower (''Hymn of the Origin Sky'' @ '' '' @ text_D (?docs ! 0) @ '' '' @
        ''Mnemosyne of the First Dawn'') = before @ ''first dawn'' @ after"
    by (simp only: author ttl spec_trm)
  have tag: "factionTag (?docs ! 2) \<noteq> factionFilter sample_view"
    by (simp add: sample_view_def primeDocuments_def)
  from filteredDocuments_membership [of "?docs ! 2" sample_view] tag flags
  have out2: "?docs ! 2 \<notin> set (filteredDocuments sample_view)"
    by blast
  show ?thesis
    using flags spec_trm trm ids hay out2 by blast
qed

text \<open>
  The condition claim C1 states for canon focus, a canon weight of at least 0.7, is not
  the one the code applies: under canon focus a document whose canon weight is \<open>NaN\<close>
  is in the output, and \<open>NaN\<close> is not at least 0.7.
\<close>

theorem filteredDocuments_membership_counterexample:
  "sample_document ''d_unweighed'' (Fin 0) NaN \<in> set (filteredDocuments nan_weight_view) \<and>
   showCanonOnly nan_weight_view \<and>
   \<not> canonWeight (sample_document ''d_unweighed'' (Fin 0) NaN) \<ge> double_0_7"
  by (simp add: nan_weight_view_def sample_document_def filteredDocuments_def keep_def
        trim_def toLowerCase_def double_0_7_def double_def)

text \<open>
  Claim C2, as the code has it. When no document of the output has the timestamp \<open>NaN\<close>,
  the output of \<open>filteredDocuments\<close> is ordered by descending timestamp: along the
  sequence the timestamps never increase. Documents with equal timestamps keep the
  order they have among the documents that pass the filter (the sort is stable).
\<close>

theorem filteredDocuments_descending:
  assumes "\<forall>d \<in> set (filteredDocuments st). timestamp d \<noteq> NaN"
  shows "sorted_wrt (\<lambda>a b. timestamp a \<ge> timestamp b) (filteredDocuments st) \<and>
         filter (\<lambda>d. timestamp d = t) (filteredDocuments st)
           = filter (\<lambda>d. timestamp d = t)
               (filter (keep st (toLowerCase (trim (searchTerm st)))) (documents st))"
proof -
  let ?kept = "filter (keep st (toLowerCase (trim (searchTerm st)))) (documents st)"
  have out: "filteredDocuments st = sort_by (\<lambda>a b. timestamp b - timestamp a) ?kept"
    by (simp add: filteredDocuments_def Let_def)
  with assms have "\<forall>d \<in> set ?kept. timestamp d \<noteq> NaN"
    by (simp add: set_sort_by)
  then show ?thesis
    unfolding out
    by (simp add: sorted_sort_by_timestamp stable_sort_by_timestamp)
qed

theorem filteredDocuments_descending_witness:
  "list_all (\<lambda>d. timestamp d \<noteq> NaN)
     (filteredDocuments (initialState (steady_clock 1762041600000))) \<and>
   map id_D (filteredDocuments (initialState (steady_clock 1762041600000)))
     = [''d_ember_heresy'', ''d_silted_reckoning'', ''d_tidal_vow'', ''d_aurora_accord'',
        ''d_origin_sky''] \<and>
   sorted_wrt (\<lambda>a b. timestamp a \<ge> timestamp b)
     (filteredDocuments (initialState (steady_clock 1762041600000)))"
proof -
  let ?docs = "primeDocuments (steady_clock 1762041600000)"
  have out: "filteredDocuments (initialState (steady_clock 1762041600000))
               = [?docs ! 4, ?docs ! 3, ?docs ! 2, ?docs ! 1, ?docs ! 0]"
    by (simp add: initialState_def steady_clock_def filteredDocuments_def primeDocuments_def
          keep_def trim_def toLowerCase_def sort_compare_def)
  have stamped: "\<forall>d \<in> set (filteredDocuments (initialState (steady_clock 1762041600000))).
                   timestamp d \<noteq> NaN"
    unfolding out by (simp add: primeDocuments_def)
  have ids: "map id_D (filteredDocuments (initialState (steady_clock 1762041600000)))
     = [''d_ember_heresy'', ''d_silted_reckoning'', ''d_tidal_vow'', ''d_aurora_accord'',
        ''d_origin_sky'']"
    unfolding out by (simp add: primeDocuments_def)
  from filteredDocuments_descending [OF stamped] stamped ids show ?thesis
    by (simp add: list_all_iff)
qed

text \<open>
  Claim C2 does not hold for every collection: of three documents stamped 1, \<open>NaN\<close> and
  2 the output keeps the input order, so the document stamped 2 comes after the
  document stamped 1.
\<close>

theorem filteredDocuments_descending_counterexample:
  "map timestamp (filteredDocuments nan_stamp_view) = [Fin 1, NaN, Fin 2] \<and>
   \<not> sorted_wrt (\<lambda>a b. timestamp a \<ge> timestamp b) (filteredDocuments nan_stamp_view)"
  by (simp add: nan_stamp_view_def sample_document_def filteredDocuments_def keep_def
        trim_def toLowerCase_def sort_compare_def)

text \<open>
  Claim C3, as the code has it. With the five fixture documents, the three fixture
  agents, \<open>showCanonOnly\<close> set, the faction filter \<open>all\<close> and an empty search term,
  the output holds only documents of canon weight at least 0.7 and is ordered by
  timestamp descending, which makes it the sequence d_aurora_accord, d_origin_sky: the
  accord is stamped 61 days before its clock reading and the hymn 92 days before its
  own. This needs the clock not to run back by 31 days or more between the two readings.
\<close>

theorem canon_only_fixtures:
  assumes "now 0 - now 1 < 1000 * 60 * 60 * 24 * 31"
  shows "filteredDocuments ((initialState now)\<lparr>showCanonOnly := True\<rparr>)
           = [primeDocuments now ! 1, primeDocuments now ! 0] \<and>
         map id_D (filteredDocuments ((initialState now)\<lparr>showCanonOnly := True\<rparr>))
           = [''d_aurora_accord'', ''d_origin_sky''] \<and>
         list_all (\<lambda>d. canonWeight d \<ge> double_0_7)
           (filteredDocuments ((initialState now)\<lparr>showCanonOnly := True\<rparr>)) \<and>
         sorted_wrt (\<lambda>a b. timestamp a \<ge> timestamp b)
           (filteredDocuments ((initialState now)\<lparr>showCanonOnly := True\<rparr>))"
  using assms
  by (simp add: initialState_def filteredDocuments_def primeDocuments_def keep_def
        trim_def toLowerCase_def double_def double_0_7_def sort_compare_def)

theorem canon_only_fixtures_witness:
  "steady_clock 1762041600000 0 - steady_clock 1762041600000 1 < 1000 * 60 * 60 * 24 * 31 \<and>
   map id_D (filteredDocuments
     ((initialState (steady_clock 1762041600000))\<lparr>showCanonOnly := True\<rparr>))
     = [''d_aurora_accord'', ''d_origin_sky'']"
proof -
  have h: "steady_clock 1762041600000 0 - steady_clock 1762041600000 1 < 1000 * 60 * 60 * 24 * 31"
    by (simp add: steady_clock_def)
  from canon_only_fixtures [OF h] h show ?thesis
    by blast
qed

text \<open>
  The sequence claim C3 names is not the output: with every fixture stamped from the
  same instant, the output is not d_origin_sky followed by d_aurora_accord.
\<close>

theorem canon_only_fixtures_counterexample:
  "map id_D (filteredDocuments
     ((initialState (steady_clock 1762041600000))\<lparr>showCanonOnly := True\<rparr>))
     \<noteq> [''d_origin_sky'', ''d_aurora_accord'']"
  by (simp add: initialState_def steady_clock_def filteredDocuments_def primeDocuments_def
        keep_def trim_def toLowerCase_def double_def double_0_7_def sort_compare_def)

section \<open>Properties of the caller\<close>

lemma state_refreshDocumentView: "state (refreshDocumentView app) = state app"
  by (simp add: refreshDocumentView_def split: option.splits)

text \<open>
  When the visible sequence is not empty, \<open>refreshArchiveList\<close> keeps an active id that
  is visible and otherwise selects the first visible document.
\<close>

lemma refreshArchiveList_reselects:
  assumes "archiveListEl app \<noteq> None" and "filteredDocuments (state app) \<noteq> []"
  shows "activeDocumentId (state (refreshArchiveList app)) =
           (if \<exists>doc \<in> set (filteredDocuments (state app)).
                 Some (id_D doc) = activeDocumentId (state app)
            then activeDocumentId (state app)
            else first_id (filteredDocuments (state app)))"
  using assms
  by (auto simp add: refreshArchiveList_def Let_def list_ex_iff state_refreshDocumentView)

text \<open>When the visible sequence is empty, the method returns before it reselects.\<close>

lemma refreshArchiveList_empty:
  assumes "filteredDocuments (state app) = []"
  shows "activeDocumentId (state (refreshArchiveList app)) = activeDocumentId (state app)"
  using assms
  by (simp add: refreshArchiveList_def state_refreshDocumentView split: option.splits)

text \<open>
  Claim C4 at an input where the code departs from it. The page shows the fixtures with
  d_origin_sky active, and the search term \<open>zzz\<close> matches no document. The visible
  sequence is empty, yet after \<open>refreshArchiveList\<close> the active id is still
  d_origin_sky, not null, and the detail pane still shows that document.
\<close>

theorem refreshArchiveList_empty_keeps_active:
  "filteredDocuments ((initialState (steady_clock 1762041600000))\<lparr>searchTerm := ''zzz''\<rparr>) = [] \<and>
   activeDocumentId (state (refreshArchiveList
     \<lparr>state = (initialState (steady_clock 1762041600000))\<lparr>searchTerm := ''zzz''\<rparr>,
      archiveListEl = Some [], detailContainerEl = Some Blank\<rparr>)) = Some ''d_origin_sky'' \<and>
   detailContainerEl (refreshArchiveList
     \<lparr>state = (initialState (steady_clock 1762041600000))\<lparr>searchTerm := ''zzz''\<rparr>,
      archiveListEl = Some [], detailContainerEl = Some Blank\<rparr>)
     = Some (DocumentDetail ''d_origin_sky'')"
proof -
  let ?st = "(initialState (steady_clock 1762041600000))\<lparr>searchTerm := ''zzz''\<rparr>"
  have empty: "filteredDocuments ?st = []"
    by (simp add: initialState_def steady_clock_def filteredDocuments_def primeDocuments_def
          keep_def trim_def toLowerCase_def is_space_def lower_char_def primeAgents_def
          agent_name_def char_of_def bit_Suc_0_iff)
  have active: "activeDocumentId ?st = Some ''d_origin_sky''"
    by (simp add: initialState_def primeDocuments_def first_id_def)
  have shown: "find (\<lambda>doc. Some (id_D doc) = Some ''d_origin_sky'') (documents ?st)
                 = Some (primeDocuments (steady_clock 1762041600000) ! 0)"
    by (simp add: initialState_def primeDocuments_def)
  show ?thesis
    using empty active shown
    by (simp add: refreshArchiveList_def refreshDocumentView_def primeDocuments_def)
qed

section \<open>Properties of the settings store\<close>

lemma read_try_absent:
  assumes "\<not> denied (localStorage w)"
    and "items (localStorage w) (key this) = None \<or> items (localStorage w) (key this) = Some []"
  shows "read_try JSON_parse this w = Inr (defaultValue this)"
  using assms by (auto simp add: read_try_def getItem_def)

lemma read_try_denied:
  assumes "denied (localStorage w)"
  shows "read_try JSON_parse this w = Inl SecurityError"
  using assms by (simp add: read_try_def getItem_def)

lemma read_try_present:
  assumes "\<not> denied (localStorage w)" and "items (localStorage w) (key this) = Some raw"
    and "raw \<noteq> []"
  shows "read_try JSON_parse this w =
           (case JSON_parse raw of
              Inl e \<Rightarrow> Inl e
            | Inr parsed \<Rightarrow> Inr (defaultValue this ++ own_props parsed))"
  using assms by (simp add: read_try_def getItem_def)

text \<open>The walk over the subscribers.\<close>

lemma calls_forEach:
  "\<exists>n \<le> length fs. calls (forEach run v fs c) = map (\<lambda>f. (f, v)) (take n fs)"
proof (induction fs arbitrary: c)
  case Nil
  then show ?case by simp
next
  case (Cons f fs)
  obtain r c' where step: "run f v c = (r, c')"
    by (cases "run f v c")
  show ?case
  proof (cases r)
    case (Inl e)
    with step have "calls (forEach run v (f # fs) c) = map (\<lambda>f. (f, v)) (take 1 (f # fs))"
      by simp
    then show ?thesis
      by (metis One_nat_def Suc_leI length_Cons zero_less_Suc)
  next
    case (Inr u)
    from Cons.IH [of c'] obtain n where n: "n \<le> length fs"
      and rest: "calls (forEach run v fs c') = map (\<lambda>f. (f, v)) (take n fs)"
      by blast
    from step Inr rest
    have "calls (forEach run v (f # fs) c) = map (\<lambda>f. (f, v)) (take (Suc n) (f # fs))"
      by (simp add: Let_def)
    with n show ?thesis
      by (metis Suc_le_mono length_Cons)
  qed
qed



lemma forEach_no_raise:
  assumes "\<forall>f \<in> set fs. \<forall>c. fst (run f v c) = Inr ()"
  shows "result (forEach run v fs c) = Inr ()"
  using assms
proof (induction fs arbitrary: c)
  case Nil
  then show ?case by simp
next
  case (Cons f fs)
  obtain r c' where step: "run f v c = (r, c')"
    by (cases "run f v c")
  with Cons.prems have "r = Inr ()"
    by (metis fst_conv list.set_intros(1))
  with step Cons show ?case
    by (simp add: Let_def)
qed

lemma forEach_storage:
  assumes "\<forall>f \<in> set fs. \<forall>c. localStorage (snd (snd (run f v c))) = localStorage (snd c)"
  shows "localStorage (world_after (forEach run v fs c)) = localStorage (snd c)"
  using assms
proof (induction fs arbitrary: c)
  case Nil
  then show ?case by simp
next
  case (Cons f fs)
  obtain r c' where step: "run f v c = (r, c')"
    by (cases "run f v c")
  with Cons.prems have kept: "localStorage (snd c') = localStorage (snd c)"
    by (metis list.set_intros(1) snd_conv)
  show ?case
  proof (cases r)
    case (Inl e)
    with step kept show ?thesis by simp
  next
    case (Inr u)
    from Cons.prems have "localStorage (world_after (forEach run v fs c')) = localStorage (snd c')"
      by (intro Cons.IH) simp
    with Inr step kept show ?thesis
      by (simp add: Let_def)
  qed
qed

lemma forEach_reaches_last:
  assumes "\<forall>g \<in> set fs. \<forall>c. fst (run g v c) = Inr ()"
  shows "calls (forEach run v (fs @ [f]) c) = map (\<lambda>g. (g, v)) fs @ [(f, v)]"
  using assms
proof (induction fs arbitrary: c)
  case Nil
  obtain r c' where step: "run f v c = (r, c')"
    by (cases "run f v c")
  then show ?case
    by (cases r) (simp_all add: Let_def)
next
  case (Cons g fs)
  obtain r c' where step: "run g v c = (r, c')"
    by (cases "run g v c")
  with Cons.prems have "r = Inr ()"
    by (metis fst_conv list.set_intros(1))
  with step Cons show ?case
    by (simp add: Let_def)
qed

lemma write_value_stored:
  assumes "JSON_stringify (JObject v) = Inr t"
    and "\<not> denied (localStorage w)" and "accepts (localStorage w) (key this) t"
  shows "write_value run JSON_stringify this v w =
           forEach run v (subscribers this)
             (subscribers this,
              w\<lparr>localStorage := (localStorage w)
                   \<lparr>items := (items (localStorage w))(key this \<mapsto> t)\<rparr>\<rparr>)"
  using assms by (simp add: write_value_def setItem_def)

lemma write_value_stringify_raises:
  assumes "\<not> denied (localStorage w)" and "JSON_stringify (JObject v) = Inl e"
  shows "write_value run JSON_stringify this v w =
           \<lparr>result = Inl e, calls = [], subscribers_after = subscribers this,
            world_after = w\<rparr>"
  using assms by (simp add: write_value_def)

text \<open>
  Claim C5. \<open>read\<close> never raises: it always returns a value. When the entry is absent
  (or is the empty text) it returns the default and logs nothing; when access to the
  storage fails or the content does not parse it returns the default and logs one
  warning; otherwise it returns the parsed value merged over the default, a property of
  the parsed value overriding the default's and the default filling in the rest.
\<close>

theorem read_never_raises:
  "(\<exists>v. fst (read JSON_parse this w) = Inr v) \<and>
   (\<not> denied (localStorage w) \<and> items (localStorage w) (key this) = None \<longrightarrow>
      read JSON_parse this w = (Inr (defaultValue this), w)) \<and>
   (\<not> denied (localStorage w) \<and> items (localStorage w) (key this) = Some [] \<longrightarrow>
      read JSON_parse this w = (Inr (defaultValue this), w)) \<and>
   (denied (localStorage w) \<longrightarrow>
      read JSON_parse this w =
        (Inr (defaultValue this),
         w\<lparr>console := console w @
              [(''Failed to load '' @ key this @ '' from storage'', SecurityError)]\<rparr>)) \<and>
   (\<forall>raw e. \<not> denied (localStorage w) \<and> items (localStorage w) (key this) = Some raw \<and>
        raw \<noteq> [] \<and> JSON_parse raw = Inl e \<longrightarrow>
      read JSON_parse this w =
        (Inr (defaultValue this),
         w\<lparr>console := console w @ [(''Failed to load '' @ key this @ '' from storage'', e)]\<rparr>)) \<and>
   (\<forall>raw parsed. \<not> denied (localStorage w) \<and> items (localStorage w) (key this) = Some raw \<and>
        raw \<noteq> [] \<and> JSON_parse raw = Inr parsed \<longrightarrow>
      (\<exists>merged. read JSON_parse this w = (Inr merged, w) \<and>
         (\<forall>k. merged k = (case own_props parsed k of
                             Some x \<Rightarrow> Some x
                           | None \<Rightarrow> defaultValue this k))))"
proof (intro conjI allI impI)
  show "\<exists>v. fst (read JSON_parse this w) = Inr v"
    by (cases "read_try JSON_parse this w") (simp_all add: read_def)
next
  assume "\<not> denied (localStorage w) \<and> items (localStorage w) (key this) = None"
  then show "read JSON_parse this w = (Inr (defaultValue this), w)"
    by (simp add: read_def read_try_absent)
next
  assume "\<not> denied (localStorage w) \<and> items (localStorage w) (key this) = Some []"
  then show "read JSON_parse this w = (Inr (defaultValue this), w)"
    by (simp add: read_def read_try_absent)
next
  assume "denied (localStorage w)"
  then show "read JSON_parse this w =
        (Inr (defaultValue this),
         w\<lparr>console := console w @
              [(''Failed to load '' @ key this @ '' from storage'', SecurityError)]\<rparr>)"
    by (simp add: read_def read_try_denied)
next
  fix raw e
  assume "\<not> denied (localStorage w) \<and> items (localStorage w) (key this) = Some raw \<and>
        raw \<noteq> [] \<and> JSON_parse raw = Inl e"
  then show "read JSON_parse this w =
        (Inr (defaultValue this),
         w\<lparr>console := console w @ [(''Failed to load '' @ key this @ '' from storage'', e)]\<rparr>)"
    by (simp add: read_def read_try_present)
next
  fix raw parsed
  assume a: "\<not> denied (localStorage w) \<and> items (localStorage w) (key this) = Some raw \<and>
        raw \<noteq> [] \<and> JSON_parse raw = Inr parsed"
  then have "read JSON_parse this w = (Inr (defaultValue this ++ own_props parsed), w)"
    by (simp add: read_def read_try_present)
  moreover have "\<forall>k. (defaultValue this ++ own_props parsed) k =
                   (case own_props parsed k of Some x \<Rightarrow> Some x | None \<Rightarrow> defaultValue this k)"
    by (simp add: map_add_def)
  ultimately show "\<exists>merged. read JSON_parse this w = (Inr merged, w) \<and>
         (\<forall>k. merged k = (case own_props parsed k of
                             Some x \<Rightarrow> Some x
                           | None \<Rightarrow> defaultValue this k))"
    by blast
qed

theorem read_never_raises_witness:
  "read sample_parse sample_store (sample_world Map.empty False True)
     = (Inr sample_default, sample_world Map.empty False True) \<and>
   denied (localStorage (sample_world Map.empty True True)) \<and>
   fst (read sample_parse sample_store (sample_world Map.empty True True)) = Inr sample_default \<and>
   console (snd (read sample_parse sample_store (sample_world Map.empty True True)))
     = [(''Failed to load infinite-library.settings from storage'', SecurityError)] \<and>
   sample_parse corrupt_text = Inl SyntaxError \<and>
   fst (read sample_parse sample_store
          (sample_world [''infinite-library.settings'' \<mapsto> corrupt_text] False True))
     = Inr sample_default \<and>
   sample_parse theme_text = Inr (JObject [''theme'' \<mapsto> JString ''dark'']) \<and>
   (\<exists>merged.
      read sample_parse sample_store
          (sample_world [''infinite-library.settings'' \<mapsto> theme_text] False True)
        = (Inr merged, sample_world [''infinite-library.settings'' \<mapsto> theme_text] False True) \<and>
      merged ''theme'' = Some (JString ''dark'') \<and>
      merged ''apiKey'' = Some (JString []))"
proof -
  have absent: "read sample_parse sample_store (sample_world Map.empty False True)
     = (Inr sample_default, sample_world Map.empty False True)"
    using read_never_raises [of sample_parse sample_store "sample_world Map.empty False True"]
    by (simp add: sample_world_def sample_store_def)
  have refused: "denied (localStorage (sample_world Map.empty True True)) \<and>
      fst (read sample_parse sample_store (sample_world Map.empty True True)) = Inr sample_default \<and>
      console (snd (read sample_parse sample_store (sample_world Map.empty True True)))
        = [(''Failed to load infinite-library.settings from storage'', SecurityError)]"
    using read_never_raises [of sample_parse sample_store "sample_world Map.empty True True"]
    by (simp add: sample_world_def sample_store_def)
  have bad: "sample_parse corrupt_text = Inl SyntaxError"
    by (simp add: sample_parse_def settings_text_def theme_text_def corrupt_text_def
          null_text_def)
  have cut: "corrupt_text \<noteq> []"
    by (simp add: corrupt_text_def)
  have corrupt: "fst (read sample_parse sample_store
          (sample_world [''infinite-library.settings'' \<mapsto> corrupt_text] False True))
     = Inr sample_default"
    using read_never_raises [of sample_parse sample_store
        "sample_world [''infinite-library.settings'' \<mapsto> corrupt_text] False True"] bad cut
    by (simp add: sample_world_def sample_store_def)
  have theme: "sample_parse theme_text = Inr (JObject [''theme'' \<mapsto> JString ''dark''])"
    by (simp add: sample_parse_def settings_text_def theme_text_def null_text_def)
  have nonempty: "theme_text \<noteq> []"
    by (simp add: theme_text_def)
  have valid: "\<exists>merged.
      read sample_parse sample_store
          (sample_world [''infinite-library.settings'' \<mapsto> theme_text] False True)
        = (Inr merged, sample_world [''infinite-library.settings'' \<mapsto> theme_text] False True) \<and>
      merged ''theme'' = Some (JString ''dark'') \<and>
      merged ''apiKey'' = Some (JString [])"
    using read_never_raises [of sample_parse sample_store
        "sample_world [''infinite-library.settings'' \<mapsto> theme_text] False True"] theme nonempty
    by (auto simp add: sample_world_def sample_store_def own_props_def sample_default_def)
  show ?thesis
    using absent refused bad corrupt theme valid by blast
qed

text \<open>
  Claim C6, as the code has it. When \<open>JSON.stringify\<close> returns a text for the
  settings value \<open>S\<close>, the text is not empty, the storage takes the entry and no
  subscriber changes the storage area, \<open>read\<close> after \<open>write\<close> of \<open>S\<close> on the same
  store returns what \<open>JSON.parse\<close> makes of that text, merged over the default (the
  default itself when the text does not parse). So for a value \<open>S\<close> that the encoding
  gives back, that is, \<open>JSON.parse\<close> makes \<open>S\<close> of the text again, it returns \<open>S\<close>
  merged over the default, and \<open>S\<close> itself when \<open>S\<close> has every property of the
  default. And \<open>write\<close> returns when no subscriber raises.
\<close>

theorem write_then_read:
  assumes "JSON_stringify (JObject S) = Inr t" and "t \<noteq> []"
    and "\<not> denied (localStorage w)" and "accepts (localStorage w) (key this) t"
    and "\<forall>f \<in> set (subscribers this). \<forall>c.
           localStorage (snd (snd (run f S c))) = localStorage (snd c)"
  shows "fst (read JSON_parse this (world_after (write_value run JSON_stringify this S w)))
           = (case JSON_parse t of
                Inl e \<Rightarrow> Inr (defaultValue this)
              | Inr parsed \<Rightarrow> Inr (defaultValue this ++ own_props parsed)) \<and>
         (JSON_parse t = Inr (JObject S) \<longrightarrow>
            fst (read JSON_parse this (world_after (write_value run JSON_stringify this S w)))
              = Inr (defaultValue this ++ S) \<and>
            (dom (defaultValue this) \<subseteq> dom S \<longrightarrow>
               fst (read JSON_parse this
                     (world_after (write_value run JSON_stringify this S w))) = Inr S)) \<and>
         ((\<forall>f \<in> set (subscribers this). \<forall>c. fst (run f S c) = Inr ()) \<longrightarrow>
            result (write_value run JSON_stringify this S w) = Inr ())"
proof -
  let ?w' = "world_after (write_value run JSON_stringify this S w)"
  have stored: "localStorage ?w' =
                  (localStorage w)\<lparr>items := (items (localStorage w))(key this \<mapsto> t)\<rparr>"
    using assms(5)
    by (simp add: write_value_stored [where JSON_stringify = JSON_stringify, OF assms(1,3,4)]
          forEach_storage)
  then have "read_try JSON_parse this ?w' =
               (case JSON_parse t of
                  Inl e \<Rightarrow> Inl e
                | Inr parsed \<Rightarrow> Inr (defaultValue this ++ own_props parsed))"
    using assms(2,3) by (simp add: read_try_def getItem_def)
  then have reread: "fst (read JSON_parse this ?w') =
                       (case JSON_parse t of
                          Inl e \<Rightarrow> Inr (defaultValue this)
                        | Inr parsed \<Rightarrow> Inr (defaultValue this ++ own_props parsed))"
    by (simp add: read_def split: sum.splits)
  have merged: "dom (defaultValue this) \<subseteq> dom S \<Longrightarrow> defaultValue this ++ S = S"
    by (auto simp add: map_add_def fun_eq_iff split: option.splits)
  have returns: "(\<forall>f \<in> set (subscribers this). \<forall>c. fst (run f S c) = Inr ()) \<longrightarrow>
                   result (write_value run JSON_stringify this S w) = Inr ()"
    by (simp add: write_value_stored [where JSON_stringify = JSON_stringify, OF assms(1,3,4)]
          forEach_no_raise)
  show ?thesis
    using reread merged returns by (simp add: own_props_def)
qed

theorem write_then_read_witness:
  "sample_stringify (JObject sample_settings) = Inr settings_text \<and>
   settings_text \<noteq> [] \<and>
   sample_parse settings_text = Inr (JObject sample_settings) \<and>
   \<not> denied (localStorage (sample_world [''infinite-library.settings'' \<mapsto> theme_text] False True)) \<and>
   dom (defaultValue sample_store) \<subseteq> dom sample_settings \<and>
   fst (read sample_parse sample_store
         (world_after (write_value quiet_run sample_stringify sample_store sample_settings
            (sample_world [''infinite-library.settings'' \<mapsto> theme_text] False True))))
     = Inr sample_settings \<and>
   result (write_value quiet_run sample_stringify sample_store sample_settings
            (sample_world [''infinite-library.settings'' \<mapsto> theme_text] False True)) = Inr ()"
proof -
  let ?w = "sample_world [''infinite-library.settings'' \<mapsto> theme_text] False True"
  have differ: "sample_settings \<noteq> nan_settings \<and> sample_settings \<noteq> null_settings"
    by (auto simp add: sample_settings_def nan_settings_def null_settings_def fun_eq_iff
          dest!: spec [where x = "''temperature''"])
  have a: "sample_stringify (JObject sample_settings) = Inr settings_text"
    using differ by (simp add: sample_stringify_def)
  have b: "settings_text \<noteq> []"
    by (simp add: settings_text_def)
  have c: "sample_parse settings_text = Inr (JObject sample_settings)"
    by (simp add: sample_parse_def)
  have d: "\<not> denied (localStorage ?w)"
    by (simp add: sample_world_def)
  have e: "accepts (localStorage ?w) (key sample_store) settings_text"
    by (simp add: sample_world_def)
  have f: "\<forall>f \<in> set (subscribers sample_store). \<forall>c.
             localStorage (snd (snd (quiet_run f sample_settings c))) = localStorage (snd c)"
    by (simp add: quiet_run_def)
  have g: "\<forall>f \<in> set (subscribers sample_store). \<forall>c. fst (quiet_run f sample_settings c) = Inr ()"
    by (simp add: quiet_run_def)
  have h: "dom (defaultValue sample_store) \<subseteq> dom sample_settings"
    by (simp add: sample_store_def sample_default_def sample_settings_def)
  from write_then_read [where JSON_stringify = sample_stringify and JSON_parse = sample_parse
      and run = quiet_run, OF a b d e f] a b c d g h
  show ?thesis
    by blast
qed

text \<open>
  Claim C6 does not hold for every settings value. Settings with a member that is
  \<open>NaN\<close> are written as a text in which that member is \<open>null\<close>, so what \<open>read\<close> returns
  after the \<open>write\<close> has returned is not these settings merged over the default.
\<close>

theorem write_then_read_counterexample:
  "result (write_value quiet_run sample_stringify sample_store nan_settings
            (sample_world Map.empty False True)) = Inr () \<and>
   fst (read sample_parse sample_store
         (world_after (write_value quiet_run sample_stringify sample_store nan_settings
            (sample_world Map.empty False True))))
     \<noteq> Inr (defaultValue sample_store ++ nan_settings)"
proof -
  let ?r = "write_value quiet_run sample_stringify sample_store nan_settings
              (sample_world Map.empty False True)"
  have returned: "result ?r = Inr ()"
    by (simp add: write_value_def sample_stringify_def sample_world_def sample_store_def
          setItem_def quiet_run_def)
  have stored: "items (localStorage (world_after ?r)) ''infinite-library.settings''
                  = Some null_text \<and> \<not> denied (localStorage (world_after ?r))"
    by (simp add: write_value_def sample_stringify_def sample_world_def sample_store_def
          setItem_def quiet_run_def)
  have body: "null_text \<noteq> [] \<and> null_text \<noteq> settings_text"
    by (simp add: null_text_def settings_text_def)
  from stored body
  have reread: "fst (read sample_parse sample_store (world_after ?r))
                = Inr (sample_default ++ null_settings)"
    by (simp add: read_def read_try_def getItem_def sample_store_def sample_parse_def
          own_props_def)
  have "(sample_default ++ null_settings) ''temperature''
          \<noteq> (sample_default ++ nan_settings) ''temperature''"
    by (simp add: null_settings_def nan_settings_def)
  then have "sample_default ++ null_settings \<noteq> sample_default ++ nan_settings"
    by metis
  with returned reread show ?thesis
    by (simp add: sample_store_def)
qed




text \<open>
  Claim C8, as the code has it. \<open>subscribe\<close> appends the callback to the subscribers,
  so that a write invokes it after the subscribers registered before it, when
  \<open>JSON.stringify\<close> returns a text, the storage takes it and none of those earlier
  subscribers raises. The handle, invoked on the store as it is by then, removes the
  callback and leaves every other subscriber in place and in order; invoking it again
  changes nothing; and a write after it does not invoke the callback.
\<close>

theorem subscribe_contract:
  "subscribers (fst (subscribe f this)) = subscribers this @ [f] \<and>
   key (fst (subscribe f this)) = key this \<and>
   defaultValue (fst (subscribe f this)) = defaultValue this \<and>
   (JSON_stringify (JObject v) = Inr t \<and> \<not> denied (localStorage w) \<and>
      accepts (localStorage w) (key this) t \<and>
      (\<forall>g \<in> set (subscribers this). \<forall>c. fst (run g v c) = Inr ()) \<longrightarrow>
    calls (write_value run JSON_stringify (fst (subscribe f this)) v w)
      = map (\<lambda>g. (g, v)) (subscribers this) @ [(f, v)]) \<and>
   subscribers (snd (subscribe f this) later) = filter (\<lambda>g. g \<noteq> f) (subscribers later) \<and>
   f \<notin> set (subscribers (snd (subscribe f this) later)) \<and>
   key (snd (subscribe f this) later) = key later \<and>
   defaultValue (snd (subscribe f this) later) = defaultValue later \<and>
   snd (subscribe f this) (snd (subscribe f this) later) = snd (subscribe f this) later \<and>
   f \<notin> fst ` set (calls (write_value run JSON_stringify (snd (subscribe f this) later) v w))"
proof -
  have quiet: "f \<notin> fst ` set (calls (write_value run JSON_stringify (unsubscribe f later) v w))"
  proof (cases "\<exists>t. JSON_stringify (JObject v) = Inr t \<and> \<not> denied (localStorage w) \<and>
                   accepts (localStorage w) (key (unsubscribe f later)) t")
    case True
    then obtain t' where ok: "JSON_stringify (JObject v) = Inr t'" "\<not> denied (localStorage w)"
      "accepts (localStorage w) (key (unsubscribe f later)) t'"
      by blast
    obtain n where "calls (write_value run JSON_stringify (unsubscribe f later) v w)
                      = map (\<lambda>g. (g, v)) (take n (subscribers (unsubscribe f later)))"
      unfolding write_value_stored [where JSON_stringify = JSON_stringify and run = run, OF ok]
      using calls_forEach by blast
    then show ?thesis
      by (auto simp add: unsubscribe_def dest: in_set_takeD)
  next
    case False
    then have "calls (write_value run JSON_stringify (unsubscribe f later) v w) = []"
      by (auto simp add: write_value_def setItem_def split: sum.splits)
    then show ?thesis
      by simp
  qed
  have during: "JSON_stringify (JObject v) = Inr t \<and> \<not> denied (localStorage w) \<and>
      accepts (localStorage w) (key this) t \<and>
      (\<forall>g \<in> set (subscribers this). \<forall>c. fst (run g v c) = Inr ()) \<longrightarrow>
    calls (write_value run JSON_stringify (fst (subscribe f this)) v w)
      = map (\<lambda>g. (g, v)) (subscribers this) @ [(f, v)]"
  proof
    assume a: "JSON_stringify (JObject v) = Inr t \<and> \<not> denied (localStorage w) \<and>
      accepts (localStorage w) (key this) t \<and>
      (\<forall>g \<in> set (subscribers this). \<forall>c. fst (run g v c) = Inr ())"
    then have ok: "JSON_stringify (JObject v) = Inr t" "\<not> denied (localStorage w)"
      "accepts (localStorage w) (key (fst (subscribe f this))) t"
      by (simp_all add: subscribe_def)
    show "calls (write_value run JSON_stringify (fst (subscribe f this)) v w)
            = map (\<lambda>g. (g, v)) (subscribers this) @ [(f, v)]"
      unfolding write_value_stored [where JSON_stringify = JSON_stringify and run = run, OF ok]
      using a by (simp add: subscribe_def forEach_reaches_last)
  qed
  show ?thesis
    using quiet during by (simp add: subscribe_def unsubscribe_def)
qed

theorem subscribe_contract_witness:
  "sample_stringify (JObject sample_settings) = Inr settings_text \<and>
   \<not> denied (localStorage (sample_world Map.empty False True)) \<and>
   accepts (localStorage (sample_world Map.empty False True)) (key sample_store) settings_text \<and>
   calls (write_value quiet_run sample_stringify (fst (subscribe 3 sample_store)) sample_settings
            (sample_world Map.empty False True))
     = [(1, sample_settings), (2, sample_settings), (3, sample_settings)] \<and>
   subscribers (snd (subscribe 3 sample_store) (fst (subscribe 3 sample_store))) = [1, 2]"
proof -
  let ?w = "sample_world Map.empty False True"
  have differ: "sample_settings \<noteq> nan_settings \<and> sample_settings \<noteq> null_settings"
    by (auto simp add: sample_settings_def nan_settings_def null_settings_def fun_eq_iff
          dest!: spec [where x = "''temperature''"])
  have a: "sample_stringify (JObject sample_settings) = Inr settings_text"
    using differ by (simp add: sample_stringify_def)
  have b: "\<not> denied (localStorage ?w)"
    by (simp add: sample_world_def)
  have c: "accepts (localStorage ?w) (key sample_store) settings_text"
    by (simp add: sample_world_def)
  have d: "\<forall>g \<in> set (subscribers sample_store). \<forall>c. fst (quiet_run g sample_settings c) = Inr ()"
    by (simp add: quiet_run_def)
  from subscribe_contract [of 3 sample_store sample_stringify sample_settings settings_text
      ?w quiet_run "fst (subscribe 3 sample_store)"] a b c d
  have "calls (write_value quiet_run sample_stringify (fst (subscribe 3 sample_store))
                 sample_settings ?w)
          = map (\<lambda>g. (g, sample_settings)) (subscribers sample_store) @ [(3, sample_settings)] \<and>
        subscribers (snd (subscribe 3 sample_store) (fst (subscribe 3 sample_store)))
          = filter (\<lambda>g. g \<noteq> 3) (subscribers (fst (subscribe 3 sample_store)))"
    by blast
  then have "calls (write_value quiet_run sample_stringify (fst (subscribe 3 sample_store))
                 sample_settings ?w)
          = [(1, sample_settings), (2, sample_settings), (3, sample_settings)] \<and>
        subscribers (snd (subscribe 3 sample_store) (fst (subscribe 3 sample_store))) = [1, 2]"
    by (simp add: sample_store_def subscribe_def)
  with a b c show ?thesis
    by blast
qed

text \<open>
  Claim C8 does not hold for every future write: when a subscriber registered earlier
  raises, the write ends there and the callback registered after it is not invoked.
\<close>

theorem subscribe_contract_counterexample:
  "subscribers (fst (subscribe 3 sample_store)) = [1, 2, 3] \<and>
   calls (write_value raising_run sample_stringify (fst (subscribe 3 sample_store))
            sample_settings (sample_world Map.empty False True)) = [(1, sample_settings)] \<and>
   (3, sample_settings)
     \<notin> set (calls (write_value raising_run sample_stringify (fst (subscribe 3 sample_store))
                     sample_settings (sample_world Map.empty False True)))"
proof -
  have differ: "sample_settings \<noteq> nan_settings \<and> sample_settings \<noteq> null_settings"
    by (auto simp add: sample_settings_def nan_settings_def null_settings_def fun_eq_iff
          dest!: spec [where x = "''temperature''"])
  have a: "sample_stringify (JObject sample_settings) = Inr settings_text"
    using differ by (simp add: sample_stringify_def)
  show ?thesis
    using a
    by (simp add: write_value_def sample_world_def sample_store_def setItem_def
          raising_run_def subscribe_def)
qed

text \<open>
  Claim C10. When \<open>setItem\<close> raises (it is called once \<open>JSON.stringify\<close> has
  returned the text), \<open>write\<close> raises the same exception and changes nothing: no
  subscriber is invoked, and the subscriber list, the world and with it the stored
  entries are as before.
\<close>

theorem write_failure_propagates:
  assumes "JSON_stringify (JObject v) = Inr t"
    and "setItem (localStorage w) (key this) t = Inl e"
  shows "write_value run JSON_stringify this v w =
           \<lparr>result = Inl e, calls = [], subscribers_after = subscribers this,
            world_after = w\<rparr> \<and>
         calls (write_value run JSON_stringify this v w) = [] \<and>
         items (localStorage (world_after (write_value run JSON_stringify this v w)))
           = items (localStorage w)"
proof -
  have "write_value run JSON_stringify this v w =
           \<lparr>result = Inl e, calls = [], subscribers_after = subscribers this,
            world_after = w\<rparr>"
  proof (cases "denied (localStorage w)")
    case True
    with assms(2) have "e = SecurityError"
      by (simp add: setItem_def)
    with True show ?thesis
      by (simp add: write_value_def)
  next
    case False
    with assms show ?thesis
      by (simp add: write_value_def)
  qed
  then show ?thesis
    by simp
qed

theorem write_failure_propagates_witness:
  "sample_stringify (JObject sample_settings) = Inr settings_text \<and>
   setItem (localStorage (sample_world [''infinite-library.settings'' \<mapsto> theme_text] False False))
     (key sample_store) settings_text = Inl QuotaExceededError \<and>
   write_value quiet_run sample_stringify sample_store sample_settings
       (sample_world [''infinite-library.settings'' \<mapsto> theme_text] False False)
     = \<lparr>result = Inl QuotaExceededError, calls = [], subscribers_after = [1, 2],
        world_after = sample_world [''infinite-library.settings'' \<mapsto> theme_text] False False\<rparr>"
proof -
  have differ: "sample_settings \<noteq> nan_settings \<and> sample_settings \<noteq> null_settings"
    by (auto simp add: sample_settings_def nan_settings_def null_settings_def fun_eq_iff
          dest!: spec [where x = "''temperature''"])
  have a: "sample_stringify (JObject sample_settings) = Inr settings_text"
    using differ by (simp add: sample_stringify_def)
  have h: "setItem (localStorage (sample_world [''infinite-library.settings'' \<mapsto> theme_text] False False))
     (key sample_store) settings_text = Inl QuotaExceededError"
    by (simp add: setItem_def sample_world_def)
  have s: "subscribers sample_store = [1, 2]"
    by (simp add: sample_store_def)
  from write_failure_propagates [where JSON_stringify = sample_stringify and run = quiet_run,
      OF a h] a h s
  show ?thesis
    by simp
qed

section \<open>Properties of the filtering engine on the object store\<close>

lemma those_map_Some:
  "those (map g xs) = Some ys \<longleftrightarrow> map g xs = map Some ys"
proof (induction xs arbitrary: ys)
  case Nil
  then show ?case by auto
next
  case (Cons x xs)
  then show ?case
    by (cases ys) (auto split: option.splits)
qed

lemma map_insert_by:
  "map f (insert_by (\<lambda>x y. cmp (f x) (f y)) x xs) = insert_by cmp (f x) (map f xs)"
  by (induction xs) (simp_all add: sort_compare_def)

lemma map_sort_by:
  "map f (sort_by (\<lambda>x y. cmp (f x) (f y)) xs) = sort_by cmp (map f xs)"
  by (induction xs) (simp_all add: map_insert_by)

lemma deref_append: "r < length h \<Longrightarrow> deref (h @ ys) r = deref h r"
  by (simp add: deref_def nth_append)

lemma deref_Some_less: "deref h r = Some x \<Longrightarrow> r < length h"
  by (simp add: deref_def split: if_splits)

lemma get_document_append: "get_document h r = Some d \<Longrightarrow> get_document (h @ ys) r = Some d"
proof (cases "r < length h")
  case True
  assume "get_document h r = Some d"
  with True show ?thesis by (simp add: get_document_def deref_append)
next
  case False
  assume "get_document h r = Some d"
  with False show ?thesis by (simp add: get_document_def deref_def)
qed

lemma get_agent_append: "get_agent h r = Some a \<Longrightarrow> get_agent (h @ ys) r = Some a"
proof (cases "r < length h")
  case True
  assume "get_agent h r = Some a"
  with True show ?thesis by (simp add: get_agent_def deref_append)
next
  case False
  assume "get_agent h r = Some a"
  with False show ?thesis by (simp add: get_agent_def deref_def)
qed

lemma get_array_append: "get_array h r = Some rs \<Longrightarrow> get_array (h @ ys) r = Some rs"
proof (cases "r < length h")
  case True
  assume "get_array h r = Some rs"
  with True show ?thesis by (simp add: get_array_def deref_append)
next
  case False
  assume "get_array h r = Some rs"
  with False show ?thesis by (simp add: get_array_def deref_def)
qed

lemma load_documents_append:
  assumes "load_documents h r = Some ds"
  shows "load_documents (h @ ys) r = Some ds"
proof -
  from assms obtain rs where rs: "get_array h r = Some rs"
    and ds: "map (get_document h) rs = map Some ds"
    by (auto simp add: load_documents_def those_map_Some split: option.splits)
  from ds have "map (get_document (h @ ys)) rs = map Some ds"
    by (induction rs arbitrary: ds) (auto simp add: get_document_append)
  with rs show ?thesis
    by (simp add: load_documents_def those_map_Some get_array_append)
qed

lemma load_agents_append:
  assumes "load_agents h r = Some ags"
  shows "load_agents (h @ ys) r = Some ags"
proof -
  from assms obtain rs where rs: "get_array h r = Some rs"
    and ags: "map (get_agent h) rs = map Some ags"
    by (auto simp add: load_agents_def those_map_Some split: option.splits)
  from ags have "map (get_agent (h @ ys)) rs = map Some ags"
    by (induction rs arbitrary: ags) (auto simp add: get_agent_append)
  with rs show ?thesis
    by (simp add: load_agents_def those_map_Some get_array_append)
qed

lemma load_state_append:
  assumes "load_state h this = Some st"
  shows "load_state (h @ ys) this = Some st"
proof -
  from assms obtain dr ar act s ff sc where
    view: "deref h this = Some (ViewStateObj dr ar act s ff sc)"
    by (auto simp add: load_state_def split: option.splits obj.splits)
  from assms view obtain ds ags where
    ds: "load_documents h dr = Some ds" and ags: "load_agents h ar = Some ags"
    and st: "st = \<lparr>documents = ds, agents = ags, activeDocumentId = act,
                    searchTerm = s, factionFilter = ff, showCanonOnly = sc\<rparr>"
    by (auto simp add: load_state_def split: option.splits)
  from view have "deref (h @ ys) this = Some (ViewStateObj dr ar act s ff sc)"
    by (simp add: deref_append deref_Some_less)
  then show ?thesis
    using load_documents_append [OF ds] load_agents_append [OF ags] st
    by (simp add: load_state_def)
qed

lemma load_pairs:
  assumes "\<forall>(r, d) \<in> set ps. get_document h r = Some d"
  shows "map (get_document h) (map fst ps) = map Some (map snd ps)"
  using assms by (induction ps) auto

text \<open>
  Claim C9. On a store that holds a well-formed view state, the getter returns, and all
  it does to the store is to add one array at a new address: every object that was there
  before the call (the document array, the agent array, each document, each agent, the
  view state) is unchanged, the view state still reads as before, and the address
  returned is none of the old ones, so the result is not the input document array. The
  new array holds the documents that the function on values, \<open>filteredDocuments\<close>,
  computes.
\<close>

theorem filteredDocuments_heap_frame:
  assumes "load_state h this = Some st"
  shows "\<exists>r h'. filteredDocuments_heap h this = Some (r, h') \<and>
           r = length h \<and> deref h r = None \<and>
           length h' = Suc (length h) \<and> take (length h) h' = h \<and>
           load_state h' this = Some st \<and>
           load_documents h' r = Some (filteredDocuments st)"
proof -
  from assms obtain dr ar act s ff sc where
    view: "deref h this = Some (ViewStateObj dr ar act s ff sc)"
    by (auto simp add: load_state_def split: option.splits obj.splits)
  with assms have docs: "load_documents h dr = Some (documents st)"
    by (auto simp add: load_state_def split: option.splits)
  then obtain rs where rs: "get_array h dr = Some rs"
    and ds: "map (get_document h) rs = map Some (documents st)"
    by (auto simp add: load_documents_def those_map_Some split: option.splits)
  from ds have len: "length rs = length (documents st)"
    by (metis length_map)
  define trm where "trm = toLowerCase (trim (searchTerm st))"
  define kept where "kept = filter (\<lambda>(r, doc). keep st trm doc) (zip rs (documents st))"
  define sorted where "sorted = sort_by (\<lambda>(ra, a) (rb, b). timestamp b - timestamp a) kept"
  define h' where "h' = h @ [ArrayObj (map fst sorted)]"
  have run: "filteredDocuments_heap h this = Some (length h, h')"
    using assms view rs
    by (simp add: filteredDocuments_heap_def documents_ref_def Let_def h'_def sorted_def
          kept_def trm_def)
  have pairs: "\<forall>(r, d) \<in> set (zip rs (documents st)). get_document h r = Some d"
  proof -
    have "\<forall>i < length rs. get_document h (rs ! i) = Some (documents st ! i)"
    proof (intro allI impI)
      fix i assume i: "i < length rs"
      then have "map (get_document h) rs ! i = map Some (documents st) ! i"
        using ds by simp
      with i len show "get_document h (rs ! i) = Some (documents st ! i)"
        by simp
    qed
    then show ?thesis
      by (auto simp add: set_zip)
  qed
  have "set sorted \<subseteq> set (zip rs (documents st))"
    by (auto simp add: sorted_def kept_def set_sort_by)
  with pairs have "\<forall>(r, d) \<in> set sorted. get_document h' r = Some d"
    by (auto simp add: h'_def intro: get_document_append)
  then have loaded: "map (get_document h') (map fst sorted) = map Some (map snd sorted)"
    by (rule load_pairs)
  have cmp: "(\<lambda>(ra, a) (rb, b). timestamp b - timestamp a)
               = (\<lambda>x y. (\<lambda>a b. timestamp b - timestamp a) (snd x) (snd y))"
    by (simp add: fun_eq_iff split_beta)
  have "map snd sorted = sort_by (\<lambda>a b. timestamp b - timestamp a) (map snd kept)"
    unfolding sorted_def cmp by (rule map_sort_by)
  also have "map snd kept = filter (keep st trm) (documents st)"
  proof -
    have "map snd kept = filter (keep st trm) (map snd (zip rs (documents st)))"
      by (simp add: kept_def filter_map comp_def case_prod_unfold)
    with len show ?thesis
      by simp
  qed
  finally have content: "map snd sorted = filteredDocuments st"
    by (simp add: filteredDocuments_def trm_def)
  have result: "load_documents h' (length h) = Some (filteredDocuments st)"
    using loaded content
    by (simp add: load_documents_def get_array_def deref_def h'_def those_map_Some)
  have frame: "load_state h' this = Some st"
    unfolding h'_def using assms by (rule load_state_append)
  show ?thesis
    using run result frame by (simp add: h'_def deref_def)
qed

theorem filteredDocuments_heap_frame_witness:
  "load_state sample_heap 10 = Some (initialState (steady_clock 1762041600000)) \<and>
   (\<exists>h'. filteredDocuments_heap sample_heap 10 = Some (11, h') \<and>
      take 11 h' = sample_heap \<and>
      load_documents h' 11 = Some (filteredDocuments (initialState (steady_clock 1762041600000))))"
proof -
  have len: "length sample_heap = 11"
    by (simp add: sample_heap_def primeDocuments_def primeAgents_def)
  have h: "load_state sample_heap 10 = Some (initialState (steady_clock 1762041600000))"
    by (simp add: sample_heap_def load_state_def load_documents_def load_agents_def
          get_array_def get_document_def get_agent_def deref_def initialState_def
          primeDocuments_def primeAgents_def first_id_def)
  from filteredDocuments_heap_frame [OF h] len h show ?thesis
    by auto
qed

text \<open>On the sample store the result lists the five documents, most recent first.\<close>

lemma filteredDocuments_heap_sample:
  "filteredDocuments_heap sample_heap 10 = Some (11, sample_heap @ [ArrayObj [4, 3, 2, 1, 0]])"
  by (simp add: sample_heap_def filteredDocuments_heap_def documents_ref_def load_state_def load_documents_def load_agents_def
          get_array_def get_document_def get_agent_def deref_def initialState_def
          primeDocuments_def primeAgents_def first_id_def keep_def trim_def toLowerCase_def
          steady_clock_def sort_compare_def)


end
